theory Spec2Isabelle
  imports Main "HOL-Library.Monad_Syntax" "HOL-Library.Sublist"
begin

section \<open>JavaScript values and syntax-tree nodes\<close>

text \<open>
  The rules inspect syntax-tree nodes by reading properties of plain JavaScript objects
  (\<^verbatim>\<open>node.type\<close>, \<^verbatim>\<open>node.body.body.length\<close>, \<^verbatim>\<open>for (const key in node)\<close>), and several of them
  are written to survive malformed trees. A node is therefore modelled as a JavaScript
  value: an object is its list of (key, value) properties in enumeration order, an array
  is the list of its elements.

  A computation that can throw is a value of type \<open>'a option\<close>: \<open>None\<close> is a thrown
  exception (in the code modelled here always a \<^verbatim>\<open>TypeError\<close> of a property read on
  \<^verbatim>\<open>undefined\<close> or \<^verbatim>\<open>null\<close>, or a call of something that is not a function). A
  \<^verbatim>\<open>try { ... } catch { return d }\<close> is a case distinction on that option.
\<close>

datatype jv =
    JUndef
  | JNull
  | JBool bool
  | JNum int
  | JStr string
  | JArr "jv list"
  | JObj "(string \<times> jv) list"

text \<open>Truthiness, as tested by \<^verbatim>\<open>!x\<close>, \<^verbatim>\<open>x && ...\<close> and \<^verbatim>\<open>if (x)\<close>.\<close>

fun truthy :: "jv \<Rightarrow> bool" where
  "truthy JUndef = False"
| "truthy JNull = False"
| "truthy (JBool b) = b"
| "truthy (JNum n) = (n \<noteq> 0)"
| "truthy (JStr s) = (s \<noteq> [])"
| "truthy (JArr xs) = True"
| "truthy (JObj fs) = True"

text \<open>
  The property read \<^verbatim>\<open>v.k\<close>: it throws on \<^verbatim>\<open>undefined\<close> and \<^verbatim>\<open>null\<close>, gives the own
  property of an object (\<^verbatim>\<open>undefined\<close> when absent), the length of an array or string,
  and \<^verbatim>\<open>undefined\<close> for every other key of a primitive or array read here.
\<close>

fun getp :: "jv \<Rightarrow> string \<Rightarrow> jv option" where
  "getp JUndef k = None"
| "getp JNull k = None"
| "getp (JObj fs) k = Some (case map_of fs k of Some v \<Rightarrow> v | None \<Rightarrow> JUndef)"
| "getp (JArr xs) k = Some (if k = ''length'' then JNum (int (length xs)) else JUndef)"
| "getp (JStr s) k = Some (if k = ''length'' then JNum (int (length s)) else JUndef)"
| "getp (JBool b) k = Some JUndef"
| "getp (JNum n) k = Some JUndef"

text \<open>\<^verbatim>\<open>typeof v === "object"\<close> for a truthy \<open>v\<close>, and \<^verbatim>\<open>"type" in v\<close> for such an object.\<close>

fun is_object :: "jv \<Rightarrow> bool" where
  "is_object (JObj fs) = True"
| "is_object (JArr xs) = True"
| "is_object v = False"

fun has_type_key :: "jv \<Rightarrow> bool" where
  "has_type_key (JObj fs) = (map_of fs ''type'' \<noteq> None)"
| "has_type_key v = False"

text \<open>The elements of an array, for \<^verbatim>\<open>for (const x of v)\<close> and the array methods; anything
  else has no such method or is not iterable, and the call throws.\<close>

fun elems :: "jv \<Rightarrow> jv list option" where
  "elems (JArr xs) = Some xs"
| "elems v = None"

text \<open>\<^verbatim>\<open>String.prototype.toLowerCase\<close> on ASCII, and \<^verbatim>\<open>s.includes(m)\<close>.\<close>

definition lower_char :: "char \<Rightarrow> char" where
  "lower_char c =
     (case map_of (zip ''ABCDEFGHIJKLMNOPQRSTUVWXYZ'' ''abcdefghijklmnopqrstuvwxyz'') c of
        Some l \<Rightarrow> l
      | None \<Rightarrow> c)"

definition toLowerCase :: "string \<Rightarrow> string" where
  "toLowerCase s = map lower_char s"

definition str_includes :: "string \<Rightarrow> string \<Rightarrow> bool" where
  "str_includes s m = sublist m s"

text \<open>A reported diagnostic: the descriptor handed to \<^verbatim>\<open>context.report\<close>. The fix is the
  edit the fix callback returns: a range of the source text and its replacement.\<close>

type_synonym edit = "(nat \<times> nat) \<times> string"

record diag =
  messageId :: string
  node :: jv
  data :: "(string \<times> jv) list"
  fix_edit :: "edit option"

text \<open>
  A rule's \<^verbatim>\<open>create\<close> returns its listeners, keyed by node type. The host (ESLint, not part
  of the repository) walks the file and calls the listener registered for the type of each
  node, in source order, then the \<^verbatim>\<open>Program:exit\<close> listener. The walk is given as
  the list of the file's nodes in that order.
\<close>

type_synonym listeners = "string \<rightharpoonup> (jv \<Rightarrow> diag list)"

definition dispatch :: "listeners \<Rightarrow> jv \<Rightarrow> diag list" where
  "dispatch ls n =
     (case getp n ''type'' of
        Some (JStr t) \<Rightarrow> (case ls t of Some h \<Rightarrow> h n | None \<Rightarrow> [])
      | _ \<Rightarrow> [])"

definition run_listeners :: "listeners \<Rightarrow> jv list \<Rightarrow> diag list" where
  "run_listeners ls ns = concat (map (dispatch ls) ns)"

section \<open>Layer-boundary passthrough detector (no-response-data-return)\<close>

text \<open>\<^verbatim>\<open>matchesServicePath\<close>: \<^verbatim>\<open>filename.replace(/\\/g, "/").includes("src/services/")\<close>.
  The file name is a string, so nothing in the body throws.\<close>

definition normalizePath :: "string \<Rightarrow> string" where
  "normalizePath filename = map (\<lambda>c. if c = CHR 0x5C then CHR ''/'' else c) filename"

definition matchesServicePath :: "string \<Rightarrow> bool" where
  "matchesServicePath filename = str_includes (normalizePath filename) ''src/services/''"

lemma jv_size_map_of: "map_of fs k = Some v \<Longrightarrow> size v < size (JObj fs)"
  by (induction fs) (auto split: if_splits)

lemma getp_type_JStr_obj: "getp cur ''type'' = Some (JStr t) \<Longrightarrow> \<exists>fs. cur = JObj fs"
  by (cases cur) (auto split: if_splits)

lemma getp_smaller: "getp (JObj fs) k = Some v \<Longrightarrow> size v < size (JObj fs)"
  by (auto split: option.splits dest: jv_size_map_of)

text \<open>The loop \<^verbatim>\<open>while (current.type === MemberExpression) current = current.object\<close>.\<close>

function unwind :: "jv \<Rightarrow> jv option" where
  "unwind current =
     (case getp current ''type'' of
        None \<Rightarrow> None
      | Some t \<Rightarrow>
          if t = JStr ''MemberExpression''
          then (case getp current ''object'' of None \<Rightarrow> None | Some nxt \<Rightarrow> unwind nxt)
          else Some current)"
  by pat_completeness auto
termination
proof (relation "measure size")
  show "wf (measure size)" by simp
next
  fix current t nxt
  assume t: "getp current ''type'' = Some t" "t = JStr ''MemberExpression''"
    and n: "getp current ''object'' = Some nxt"
  from t obtain fs where "current = JObj fs" using getp_type_JStr_obj by blast
  with n show "(nxt, current) \<in> measure size" using getp_smaller by auto
qed

declare unwind.simps [simp del]

definition responseName :: "string \<Rightarrow> bool" where
  "responseName name =
     (str_includes name ''response'' \<or> str_includes name ''res'' \<or> name = ''r''
      \<or> str_includes name ''result'')"

definition isResponseDataAccess_body :: "jv \<Rightarrow> bool option" where
  "isResponseDataAccess_body n = do {
     property \<leftarrow> getp n ''property'';
     ptype \<leftarrow> getp property ''type'';
     if ptype \<noteq> JStr ''Identifier'' then Some False
     else do {
       pname \<leftarrow> getp property ''name'';
       if pname \<noteq> JStr ''data'' then Some False
       else do {
         obj \<leftarrow> getp n ''object'';
         current \<leftarrow> unwind obj;
         ctype \<leftarrow> getp current ''type'';
         if ctype = JStr ''Identifier''
         then do {
           nm \<leftarrow> getp current ''name'';
           (case nm of JStr s \<Rightarrow> Some (responseName (toLowerCase s)) | _ \<Rightarrow> None)
         }
         else Some False
       }
     }
   }"

definition isResponseDataAccess :: "jv \<Rightarrow> bool" where
  "isResponseDataAccess n =
     (case isResponseDataAccess_body n of None \<Rightarrow> False | Some b \<Rightarrow> b)"

definition isDirectResponseDataReturn_body :: "jv \<Rightarrow> bool option" where
  "isDirectResponseDataReturn_body returnNode = do {
     argument \<leftarrow> getp returnNode ''argument'';
     if \<not> truthy argument then Some False
     else do {
       atype \<leftarrow> getp argument ''type'';
       if atype = JStr ''MemberExpression'' then Some (isResponseDataAccess argument)
       else if atype = JStr ''ChainExpression''
       then do {
         expr \<leftarrow> getp argument ''expression'';
         etype \<leftarrow> getp expr ''type'';
         if etype = JStr ''MemberExpression'' then Some (isResponseDataAccess expr)
         else Some False
       }
       else Some False
     }
   }"

definition isDirectResponseDataReturn :: "jv \<Rightarrow> bool" where
  "isDirectResponseDataReturn returnNode =
     (case isDirectResponseDataReturn_body returnNode of None \<Rightarrow> False | Some b \<Rightarrow> b)"

definition ReturnStatement_listener :: "jv \<Rightarrow> diag list" where
  "ReturnStatement_listener n =
     (if isDirectResponseDataReturn n
      then [\<lparr>messageId = ''directResponseDataReturn'', node = n, data = [], fix_edit = None\<rparr>]
      else [])"

definition noResponseDataReturn_create :: "string \<Rightarrow> listeners" where
  "noResponseDataReturn_create filename =
     (if \<not> matchesServicePath filename then Map.empty
      else [''ReturnStatement'' \<mapsto> ReturnStatement_listener])"

definition noResponseDataReturn :: "string \<Rightarrow> jv list \<Rightarrow> diag list" where
  "noResponseDataReturn filename ns = run_listeners (noResponseDataReturn_create filename) ns"

subsection \<open>The claims' reading of the passthrough pattern\<close>

text \<open>
  The structural part of the pattern, in the words of the specification: the returned
  expression is a member access, directly or inside an optional-chaining wrapper; its
  property is the identifier \<open>data\<close>; unwinding nested member accesses from its object
  ends in an identifier, the root. The condition on the root's name is a parameter.
\<close>

definition is_node :: "string \<Rightarrow> jv \<Rightarrow> bool" where
  "is_node t v = (getp v ''type'' = Some (JStr t))"

definition identifier_name :: "jv \<Rightarrow> string option" where
  "identifier_name v =
     (if is_node ''Identifier'' v
      then (case getp v ''name'' of Some (JStr s) \<Rightarrow> Some s | _ \<Rightarrow> None)
      else None)"

definition returned_member :: "jv \<Rightarrow> jv option" where
  "returned_member r =
     (case getp r ''argument'' of
        None \<Rightarrow> None
      | Some a \<Rightarrow>
          if is_node ''MemberExpression'' a then Some a
          else if is_node ''ChainExpression'' a
          then (case getp a ''expression'' of
                  None \<Rightarrow> None
                | Some e \<Rightarrow> if is_node ''MemberExpression'' e then Some e else None)
          else None)"

definition data_access_root :: "jv \<Rightarrow> string option" where
  "data_access_root m =
     (case getp m ''property'' of
        None \<Rightarrow> None
      | Some p \<Rightarrow>
          if identifier_name p = Some ''data''
          then (case getp m ''object'' of
                  None \<Rightarrow> None
                | Some ob \<Rightarrow> (case unwind ob of None \<Rightarrow> None | Some r \<Rightarrow> identifier_name r))
          else None)"

definition passthrough :: "(string \<Rightarrow> bool) \<Rightarrow> jv \<Rightarrow> bool" where
  "passthrough P r =
     (case returned_member r of
        None \<Rightarrow> False
      | Some m \<Rightarrow> (case data_access_root m of None \<Rightarrow> False | Some s \<Rightarrow> P s))"

text \<open>The name condition as the claim states it, and as the code applies it.\<close>

definition claimed_response_name :: "string \<Rightarrow> bool" where
  "claimed_response_name name =
     (let n = toLowerCase name
      in n = ''response'' \<or> n = ''res'' \<or> n = ''r'' \<or> str_includes n ''result'')"

definition contains_res_or_r :: "string \<Rightarrow> bool" where
  "contains_res_or_r name =
     (let n = toLowerCase name in str_includes n ''res'' \<or> n = ''r'')"

definition directResponseDataReturn :: "jv \<Rightarrow> diag" where
  "directResponseDataReturn n =
     \<lparr>messageId = ''directResponseDataReturn'', node = n, data = [], fix_edit = None\<rparr>"

subsection \<open>Sample trees\<close>

definition ident :: "string \<Rightarrow> jv" where
  "ident s = JObj [(''type'', JStr ''Identifier''), (''name'', JStr s)]"

definition member :: "jv \<Rightarrow> jv \<Rightarrow> jv" where
  "member ob pr =
     JObj [(''type'', JStr ''MemberExpression''), (''object'', ob), (''property'', pr)]"

definition return_stmt :: "jv \<Rightarrow> jv" where
  "return_stmt a = JObj [(''type'', JStr ''ReturnStatement''), (''argument'', a)]"

section \<open>Effectively-empty-handler detector (no-empty-catch)\<close>

subsection \<open>What the host provides\<close>

text \<open>
  \<^verbatim>\<open>SourceCode\<close>, comments, tokens and the fixer belong to ESLint. A comment is its text
  and its range (absent when the host gives none). The text is a JavaScript string: the
  list of its UTF-16 code units, which is what a regular expression without the \<^verbatim>\<open>u\<close>
  flag runs over. \<^verbatim>\<open>getAllComments\<close> is \<open>None\<close> when the object passed as source code has
  no such function. \<^verbatim>\<open>getFirstToken(node)\<close> gives the range of the first token of a
  node, or \<open>None\<close> for \<^verbatim>\<open>null\<close>.
\<close>

type_synonym code_unit = nat

definition units :: "string \<Rightarrow> code_unit list" where
  "units s = map of_char s"

record comment =
  comment_value :: "code_unit list"
  comment_range :: "(int \<times> int) option"

record sourceCode =
  getAllComments :: "comment list option"
  getFirstToken :: "jv \<Rightarrow> (nat \<times> nat) option"

text \<open>\<^verbatim>\<open>fixer.insertTextAfter(token, text)\<close> is the edit that replaces the empty range at the
  token's end by the text; the host applies an edit by splicing the source text.\<close>

definition insertTextAfter :: "nat \<times> nat \<Rightarrow> string \<Rightarrow> edit" where
  "insertTextAfter token_range txt = ((snd token_range, snd token_range), txt)"

definition applyFix :: "string \<Rightarrow> edit \<Rightarrow> string" where
  "applyFix src e = take (fst (fst e)) src @ snd e @ drop (snd (fst e)) src"

subsection \<open>The ignore-intent patterns\<close>

text \<open>
  The five patterns \<^verbatim>\<open>/intentionally\s+ignored?/i\<close>, \<^verbatim>\<open>/deliberately\s+ignored?/i\<close>,
  \<^verbatim>\<open>/ignore\s+error/i\<close>, \<^verbatim>\<open>/no-op/i\<close>, \<^verbatim>\<open>/noop/i\<close> use three kinds of atom: a
  character matched without regard to case, \<^verbatim>\<open>\s+\<close>, and an optional character.
  \<open>regex_test\<close> is \<^verbatim>\<open>pattern.test(s)\<close>: a match starting at any position.

  \<^verbatim>\<open>\s\<close> matches the white space and line terminators of the language: tab, line feed,
  vertical tab, form feed, carriage return, space, U+00A0, U+1680, U+2000 to U+200A,
  U+2028, U+2029, U+202F, U+205F, U+3000 and U+FEFF.

  The pattern characters are ASCII. Under the \<^verbatim>\<open>i\<close> flag a code unit matches a pattern
  letter when both have the same upper-case form, and a code unit from 128 on is never
  taken to an ASCII one; so a pattern letter is matched by its two ASCII cases only, which
  is equality after lower-casing \<open>A\<close> to \<open>Z\<close>.
\<close>

datatype atom = Chr code_unit | Spaces | Opt code_unit

definition is_space :: "code_unit \<Rightarrow> bool" where
  "is_space u =
     (u \<in> set [0x09, 0x0A, 0x0B, 0x0C, 0x0D, 0x20, 0xA0, 0x1680, 0x2028, 0x2029, 0x202F,
               0x205F, 0x3000, 0xFEFF]
      \<or> (0x2000 \<le> u \<and> u \<le> 0x200A))"

definition lower_unit :: "code_unit \<Rightarrow> code_unit" where
  "lower_unit u = (if 65 \<le> u \<and> u \<le> 90 then u + 32 else u)"

fun match_here :: "atom list \<Rightarrow> code_unit list \<Rightarrow> bool" where
  "match_here [] s = True"
| "match_here (Chr c # as) [] = False"
| "match_here (Chr c # as) (x # xs) = (lower_unit x = c \<and> match_here as xs)"
| "match_here (Opt c # as) [] = match_here as []"
| "match_here (Opt c # as) (x # xs) =
     ((lower_unit x = c \<and> match_here as xs) \<or> match_here as (x # xs))"
| "match_here (Spaces # as) [] = False"
| "match_here (Spaces # as) (x # xs) =
     (is_space x \<and> (match_here (Spaces # as) xs \<or> match_here as xs))"

fun regex_test :: "atom list \<Rightarrow> code_unit list \<Rightarrow> bool" where
  "regex_test p [] = match_here p []"
| "regex_test p (x # xs) = (match_here p (x # xs) \<or> regex_test p xs)"

definition lit :: "string \<Rightarrow> atom list" where
  "lit s = map Chr (units s)"

definition ignorePatterns :: "atom list list" where
  "ignorePatterns =
     [lit ''intentionally'' @ [Spaces] @ lit ''ignore'' @ [Opt (of_char CHR ''d'')],
      lit ''deliberately'' @ [Spaces] @ lit ''ignore'' @ [Opt (of_char CHR ''d'')],
      lit ''ignore'' @ [Spaces] @ lit ''error'',
      lit ''no-op'',
      lit ''noop'']"

subsection \<open>The helpers \<^verbatim>\<open>isEffectivelyEmpty\<close> and \<^verbatim>\<open>hasIntentionalIgnoreComment\<close>\<close>

definition isEffectivelyEmpty_body :: "jv \<Rightarrow> bool option" where
  "isEffectivelyEmpty_body catchClause = do {
     body \<leftarrow> getp catchClause ''body'';
     if \<not> truthy body then Some True
     else do {
       btype \<leftarrow> getp body ''type'';
       if btype \<noteq> JStr ''BlockStatement'' then Some True
       else do {
         stmts \<leftarrow> getp body ''body'';
         len \<leftarrow> getp stmts ''length'';
         Some (len = JNum 0)
       }
     }
   }"

definition isEffectivelyEmpty :: "jv \<Rightarrow> bool" where
  "isEffectivelyEmpty catchClause =
     (case isEffectivelyEmpty_body catchClause of None \<Rightarrow> True | Some b \<Rightarrow> b)"

text \<open>
  The destructuring \<^verbatim>\<open>const [start, end] = catchClause.range\<close> takes the first two
  elements of an array (\<^verbatim>\<open>undefined\<close> where missing) and throws on a value that is not
  iterable. A range bound is a number in every tree a parser yields; the comparisons
  \<^verbatim>\<open>>=\<close> and \<^verbatim>\<open><=\<close> convert \<^verbatim>\<open>null\<close> and booleans to numbers, and are false for
  \<^verbatim>\<open>undefined\<close> (not a number). Bounds of any other kind are treated as not a number.
\<close>

fun destructure2 :: "jv \<Rightarrow> (jv \<times> jv) option" where
  "destructure2 (JArr []) = Some (JUndef, JUndef)"
| "destructure2 (JArr [a]) = Some (a, JUndef)"
| "destructure2 (JArr (a # b # xs)) = Some (a, b)"
| "destructure2 (JStr []) = Some (JUndef, JUndef)"
| "destructure2 (JStr [a]) = Some (JStr [a], JUndef)"
| "destructure2 (JStr (a # b # xs)) = Some (JStr [a], JStr [b])"
| "destructure2 v = None"

fun to_number :: "jv \<Rightarrow> int option" where
  "to_number (JNum n) = Some n"
| "to_number JNull = Some 0"
| "to_number (JBool b) = Some (if b then 1 else 0)"
| "to_number v = None"

definition num_ge :: "int \<Rightarrow> jv \<Rightarrow> bool" where
  "num_ge a v = (case to_number v of None \<Rightarrow> False | Some b \<Rightarrow> a \<ge> b)"

definition num_le :: "int \<Rightarrow> jv \<Rightarrow> bool" where
  "num_le a v = (case to_number v of None \<Rightarrow> False | Some b \<Rightarrow> a \<le> b)"

text \<open>The callback of \<^verbatim>\<open>allComments.filter\<close>, and the filter itself, which stops at the
  first callback that throws.\<close>

definition inCatchBlock :: "jv \<Rightarrow> comment \<Rightarrow> bool option" where
  "inCatchBlock catchClause c = do {
     r \<leftarrow> getp catchClause ''range'';
     if \<not> truthy r then Some False
     else do {
       (start, end) \<leftarrow> destructure2 r;
       Some (case comment_range c of
               None \<Rightarrow> False
             | Some (c0, c1) \<Rightarrow> num_ge c0 start \<and> num_le c1 end)
     }
   }"

fun filter_throwing :: "('a \<Rightarrow> bool option) \<Rightarrow> 'a list \<Rightarrow> 'a list option" where
  "filter_throwing f [] = Some []"
| "filter_throwing f (x # xs) = do {
     b \<leftarrow> f x;
     ys \<leftarrow> filter_throwing f xs;
     Some (if b then x # ys else ys)
   }"

definition hasIntentionalIgnoreComment_body :: "jv \<Rightarrow> sourceCode \<Rightarrow> bool option" where
  "hasIntentionalIgnoreComment_body catchClause sc = do {
     body \<leftarrow> getp catchClause ''body'';
     if \<not> truthy body then Some False
     else do {
       btype \<leftarrow> getp body ''type'';
       if btype \<noteq> JStr ''BlockStatement'' then Some False
       else do {
         catchBlockComments \<leftarrow>
           filter_throwing (inCatchBlock catchClause)
             (case getAllComments sc of None \<Rightarrow> [] | Some cs \<Rightarrow> cs);
         Some (list_ex (\<lambda>c. list_ex (\<lambda>p. regex_test p (comment_value c)) ignorePatterns)
                 catchBlockComments)
       }
     }
   }"

definition hasIntentionalIgnoreComment :: "jv \<Rightarrow> sourceCode \<Rightarrow> bool" where
  "hasIntentionalIgnoreComment catchClause sc =
     (case hasIntentionalIgnoreComment_body catchClause sc of None \<Rightarrow> False | Some b \<Rightarrow> b)"

subsection \<open>\<^verbatim>\<open>checkIfParamUsed\<close>\<close>

text \<open>
  \<^verbatim>\<open>===\<close> between two values read from the tree: primitives are compared by value; two
  objects of a tree are never the same object.
\<close>

fun strict_eq :: "jv \<Rightarrow> jv \<Rightarrow> bool" where
  "strict_eq JUndef JUndef = True"
| "strict_eq JNull JNull = True"
| "strict_eq (JBool a) (JBool b) = (a = b)"
| "strict_eq (JNum a) (JNum b) = (a = b)"
| "strict_eq (JStr a) (JStr b) = (a = b)"
| "strict_eq a b = False"

definition skipped_key :: "string \<Rightarrow> bool" where
  "skipped_key k = (k = ''parent'' \<or> k = ''range'' \<or> k = ''loc'')"

definition is_named_identifier :: "jv \<Rightarrow> jv \<Rightarrow> bool" where
  "is_named_identifier paramName n =
     (getp n ''type'' = Some (JStr ''Identifier'')
      \<and> (case getp n ''name'' of None \<Rightarrow> False | Some nm \<Rightarrow> strict_eq nm paramName))"

text \<open>
  The inner function \<^verbatim>\<open>traverse\<close> with the flag \<^verbatim>\<open>isUsed\<close> it assigns, passed in and
  returned. \<open>traverse_fields\<close> is the \<^verbatim>\<open>for (const key in node)\<close> loop over the
  properties still to come, \<open>traverse_value\<close> its body for one property value,
  \<open>traverse_items\<close> the \<^verbatim>\<open>for (const item of value)\<close> loop. For an array handed in as
  the block itself, \<^verbatim>\<open>for ... in\<close> runs over its indices, none of which is a skipped key.
\<close>

fun traverse :: "jv \<Rightarrow> jv \<Rightarrow> bool \<Rightarrow> bool"
  and traverse_fields :: "jv \<Rightarrow> (string \<times> jv) list \<Rightarrow> bool \<Rightarrow> bool"
  and traverse_value :: "jv \<Rightarrow> jv \<Rightarrow> bool \<Rightarrow> bool"
  and traverse_items :: "jv \<Rightarrow> jv list \<Rightarrow> bool \<Rightarrow> bool"
where
  "traverse paramName (JObj fs) isUsed =
     (if isUsed then isUsed
      else if is_named_identifier paramName (JObj fs) then True
      else traverse_fields paramName fs isUsed)"
| "traverse paramName (JArr xs) isUsed =
     (if isUsed then isUsed
      else traverse_fields paramName (map (Pair ''index'') xs) isUsed)"
| "traverse paramName JUndef isUsed = isUsed"
| "traverse paramName JNull isUsed = isUsed"
| "traverse paramName (JBool b) isUsed = isUsed"
| "traverse paramName (JNum n) isUsed = isUsed"
| "traverse paramName (JStr s) isUsed = isUsed"
| "traverse_fields paramName [] isUsed = isUsed"
| "traverse_fields paramName ((k, v) # fs) isUsed =
     traverse_fields paramName fs
       (if skipped_key k then isUsed else traverse_value paramName v isUsed)"
| "traverse_value paramName (JArr items) isUsed = traverse_items paramName items isUsed"
| "traverse_value paramName (JObj gs) isUsed =
     (if has_type_key (JObj gs) then traverse paramName (JObj gs) isUsed else isUsed)"
| "traverse_value paramName JUndef isUsed = isUsed"
| "traverse_value paramName JNull isUsed = isUsed"
| "traverse_value paramName (JBool b) isUsed = isUsed"
| "traverse_value paramName (JNum n) isUsed = isUsed"
| "traverse_value paramName (JStr s) isUsed = isUsed"
| "traverse_items paramName [] isUsed = isUsed"
| "traverse_items paramName (item # items) isUsed =
     traverse_items paramName items
       (if has_type_key item then traverse paramName item isUsed else isUsed)"

definition checkIfParamUsed :: "jv \<Rightarrow> jv \<Rightarrow> bool" where
  "checkIfParamUsed block paramName = traverse paramName block False"

subsection \<open>The \<^verbatim>\<open>CatchClause\<close> listener\<close>

definition emptyCatch :: "jv \<Rightarrow> sourceCode \<Rightarrow> diag" where
  "emptyCatch n sc =
     \<lparr>messageId = ''emptyCatch'', node = n, data = [],
      fix_edit = (case getFirstToken sc n of
                    None \<Rightarrow> None
                  | Some catchKeyword \<Rightarrow>
                      Some (insertTextAfter catchKeyword '' // intentionally ignored''))\<rparr>"

definition unusedParam :: "jv \<Rightarrow> jv \<Rightarrow> diag" where
  "unusedParam param paramName =
     \<lparr>messageId = ''unusedParam'', node = param, data = [(''paramName'', paramName)],
      fix_edit = None\<rparr>"

text \<open>The second \<^verbatim>\<open>if\<close> of the listener; its reads can throw.\<close>

definition unusedParam_check :: "jv \<Rightarrow> diag list option" where
  "unusedParam_check n = do {
     param \<leftarrow> getp n ''param'';
     if \<not> truthy param then Some []
     else do {
       ptype \<leftarrow> getp param ''type'';
       if ptype = JStr ''Identifier''
       then do {
         paramName \<leftarrow> getp param ''name'';
         body \<leftarrow> getp n ''body'';
         Some (if \<not> checkIfParamUsed body paramName then [unusedParam param paramName] else [])
       }
       else Some []
     }
   }"

text \<open>The listener: what was reported before an exception stays reported; the
  \<^verbatim>\<open>catch\<close> only logs.\<close>

definition CatchClause_listener :: "sourceCode \<Rightarrow> jv \<Rightarrow> diag list" where
  "CatchClause_listener sc n =
     (let isEmpty = isEffectivelyEmpty n;
          isIntentionallyIgnored = hasIntentionalIgnoreComment n sc
      in (if isEmpty \<and> \<not> isIntentionallyIgnored then [emptyCatch n sc] else [])
         @ (if \<not> isEmpty \<and> \<not> isIntentionallyIgnored
            then (case unusedParam_check n of None \<Rightarrow> [] | Some ds \<Rightarrow> ds)
            else []))"

definition noEmptyCatch :: "sourceCode \<Rightarrow> jv list \<Rightarrow> diag list" where
  "noEmptyCatch sc ns = run_listeners [''CatchClause'' \<mapsto> CatchClause_listener sc] ns"

subsection \<open>Lexical occurrence of a name in a subtree\<close>

text \<open>
  A property value holds a child node when it is an object carrying a \<open>type\<close> key, or an
  array with such an object among its elements. An identifier named \<open>paramName\<close> occurs
  in a subtree when the subtree is that identifier, or when it occurs in a child held by
  a property other than \<open>parent\<close>, \<open>range\<close> and \<open>loc\<close>.
\<close>

definition child_node :: "jv \<Rightarrow> jv \<Rightarrow> bool" where
  "child_node v c = (has_type_key c \<and> (v = c \<or> (\<exists>items. v = JArr items \<and> c \<in> set items)))"

inductive occurs :: "jv \<Rightarrow> jv \<Rightarrow> bool" for paramName :: jv where
  here: "is_named_identifier paramName (JObj fs) \<Longrightarrow> occurs paramName (JObj fs)"
| field: "(k, v) \<in> set fs \<Longrightarrow> \<not> skipped_key k \<Longrightarrow> child_node v c \<Longrightarrow> occurs paramName c
          \<Longrightarrow> occurs paramName (JObj fs)"
| element: "v \<in> set xs \<Longrightarrow> child_node v c \<Longrightarrow> occurs paramName c
          \<Longrightarrow> occurs paramName (JArr xs)"

subsection \<open>Sample catch clauses\<close>

definition call :: "jv \<Rightarrow> jv list \<Rightarrow> jv" where
  "call callee args =
     JObj [(''type'', JStr ''CallExpression''), (''callee'', callee), (''arguments'', JArr args)]"

definition expr_stmt :: "jv \<Rightarrow> jv" where
  "expr_stmt e = JObj [(''type'', JStr ''ExpressionStatement''), (''expression'', e)]"

definition str_literal :: "string \<Rightarrow> jv" where
  "str_literal s = JObj [(''type'', JStr ''Literal''), (''value'', JStr s)]"

definition block :: "jv list \<Rightarrow> jv" where
  "block stmts = JObj [(''type'', JStr ''BlockStatement''), (''body'', JArr stmts)]"

definition catch_clause :: "jv \<Rightarrow> jv \<Rightarrow> int \<times> int \<Rightarrow> jv" where
  "catch_clause param body r =
     JObj [(''type'', JStr ''CatchClause''), (''param'', param), (''body'', body),
           (''range'', JArr [JNum (fst r), JNum (snd r)])]"

text \<open>A host with no comments, whose first token of every node is a five-character
  keyword at offset 0, as for the text \<^verbatim>\<open>catch (e) {}\<close>.\<close>

definition plain_source :: sourceCode where
  "plain_source = \<lparr>getAllComments = Some [], getFirstToken = (\<lambda>n. Some (0, 5))\<rparr>"

section \<open>Duplicate-definition-per-file detector (one-component-per-file)\<close>

subsection \<open>The classifiers \<^verbatim>\<open>returnsJSX\<close> and \<^verbatim>\<open>isReactComponent\<close>\<close>

text \<open>\<^verbatim>\<open>for (const x of v)\<close> runs over the elements of an array or the characters of a
  string, and throws on anything else.\<close>

fun iter :: "jv \<Rightarrow> jv list option" where
  "iter (JArr xs) = Some xs"
| "iter (JStr s) = Some (map (\<lambda>c. JStr [c]) s)"
| "iter v = None"

definition isJSXNode :: "jv \<Rightarrow> bool option" where
  "isJSXNode n = do {
     t \<leftarrow> getp n ''type'';
     Some (t = JStr ''JSXElement'' \<or> t = JStr ''JSXFragment'')
   }"

text \<open>The loop over the statements of a block body; it returns at the first return
  statement whose argument is a JSX node.\<close>

fun returnsJSX_loop :: "jv list \<Rightarrow> bool option" where
  "returnsJSX_loop [] = Some False"
| "returnsJSX_loop (statement # rest) = do {
     t \<leftarrow> getp statement ''type'';
     if t = JStr ''ReturnStatement''
     then do {
       argument \<leftarrow> getp statement ''argument'';
       if truthy argument
       then do {
         j \<leftarrow> isJSXNode argument;
         if j then Some True else returnsJSX_loop rest
       }
       else returnsJSX_loop rest
     }
     else returnsJSX_loop rest
   }"

definition returnsJSX_body :: "jv \<Rightarrow> bool option" where
  "returnsJSX_body n = do {
     t \<leftarrow> getp n ''type'';
     arrowWithExpressionBody \<leftarrow>
       (if t = JStr ''ArrowFunctionExpression''
        then do {
          e \<leftarrow> getp n ''expression'';
          if truthy e
          then do {
            b \<leftarrow> getp n ''body'';
            bt \<leftarrow> getp b ''type'';
            Some (bt \<noteq> JStr ''BlockStatement'')
          }
          else Some False
        }
        else Some False);
     if arrowWithExpressionBody
     then do { b \<leftarrow> getp n ''body''; isJSXNode b }
     else do {
       b \<leftarrow> getp n ''body'';
       if truthy b
       then do {
         bt \<leftarrow> getp b ''type'';
         if bt = JStr ''BlockStatement''
         then do {
           stmts \<leftarrow> getp b ''body'';
           statements \<leftarrow> iter stmts;
           returnsJSX_loop statements
         }
         else Some False
       }
       else Some False
     }
   }"

definition returnsJSX :: "jv \<Rightarrow> bool" where
  "returnsJSX n = (case returnsJSX_body n of None \<Rightarrow> False | Some b \<Rightarrow> b)"

text \<open>The test of a member-access super class: \<^verbatim>\<open>React.Component\<close> or
  \<^verbatim>\<open>React.PureComponent\<close>, a chain of \<^verbatim>\<open>&&\<close> evaluated from the left.\<close>

definition isReactMember :: "jv \<Rightarrow> bool option" where
  "isReactMember superClass = do {
     obj \<leftarrow> getp superClass ''object'';
     prop \<leftarrow> getp superClass ''property'';
     ot \<leftarrow> getp obj ''type'';
     if ot = JStr ''Identifier''
     then do {
       on \<leftarrow> getp obj ''name'';
       if on = JStr ''React''
       then do {
         pt \<leftarrow> getp prop ''type'';
         if pt = JStr ''Identifier''
         then do {
           pn \<leftarrow> getp prop ''name'';
           Some (pn = JStr ''Component'' \<or> pn = JStr ''PureComponent'')
         }
         else Some False
       }
       else Some False
     }
     else Some False
   }"

text \<open>The three tests on \<^verbatim>\<open>node.type\<close> exclude one another, so the sequence of
  \<^verbatim>\<open>if\<close> statements is a chain.\<close>

definition isReactComponent_body :: "jv \<Rightarrow> bool option" where
  "isReactComponent_body n = do {
     t \<leftarrow> getp n ''type'';
     if t = JStr ''FunctionDeclaration'' then Some (returnsJSX n)
     else if t = JStr ''VariableDeclarator''
     then do {
       init \<leftarrow> getp n ''init'';
       if truthy init
       then do {
         it \<leftarrow> getp init ''type'';
         if it = JStr ''ArrowFunctionExpression'' \<or> it = JStr ''FunctionExpression''
         then Some (returnsJSX init)
         else Some False
       }
       else Some False
     }
     else if t = JStr ''ClassDeclaration''
     then do {
       superClass \<leftarrow> getp n ''superClass'';
       if truthy superClass
       then do {
         st \<leftarrow> getp superClass ''type'';
         m \<leftarrow> (if st = JStr ''MemberExpression'' then isReactMember superClass else Some False);
         if m then Some True
         else if st = JStr ''Identifier''
         then do {
           nm \<leftarrow> getp superClass ''name'';
           Some (nm = JStr ''Component'' \<or> nm = JStr ''PureComponent'')
         }
         else Some False
       }
       else Some False
     }
     else Some False
   }"

definition isReactComponent :: "jv \<Rightarrow> bool" where
  "isReactComponent n = (case isReactComponent_body n of None \<Rightarrow> False | Some b \<Rightarrow> b)"

subsection \<open>\<^verbatim>\<open>Array.prototype.join\<close>\<close>

text \<open>\<^verbatim>\<open>join\<close> turns each element into a string: \<^verbatim>\<open>undefined\<close> and \<^verbatim>\<open>null\<close> into the
  empty string, an array into its own elements joined by a comma.\<close>

definition digit :: "nat \<Rightarrow> char" where
  "digit n = ''0123456789'' ! (n mod 10)"

fun dec :: "nat \<Rightarrow> string" where
  "dec n = (if n < 10 then [digit n] else dec (n div 10) @ [digit n])"

declare dec.simps [simp del]

fun join_with :: "string \<Rightarrow> string list \<Rightarrow> string" where
  "join_with sep [] = []"
| "join_with sep [x] = x"
| "join_with sep (x # y # ys) = x @ sep @ join_with sep (y # ys)"

fun element_string :: "jv \<Rightarrow> string" where
  "element_string JUndef = []"
| "element_string JNull = []"
| "element_string (JBool b) = (if b then ''true'' else ''false'')"
| "element_string (JNum n) = (if n < 0 then ''-'' @ dec (nat (- n)) else dec (nat n))"
| "element_string (JStr s) = s"
| "element_string (JArr xs) = join_with '','' (map element_string xs)"
| "element_string (JObj fs) = ''[object Object]''"

subsection \<open>The rule's state and listeners\<close>

record ComponentInfo =
  name :: jv
  component_node :: jv
  isCompoundChild :: bool

text \<open>The two accumulators created by \<^verbatim>\<open>create\<close>. The set \<^verbatim>\<open>compoundChildren\<close> is only
  ever asked \<^verbatim>\<open>has\<close>, so it is the list of the values added.\<close>

record rule_state =
  components :: "ComponentInfo list"
  compoundChildren :: "jv list"

definition initial_state :: rule_state where
  "initial_state = \<lparr>components = [], compoundChildren = []\<rparr>"

definition push_component :: "rule_state \<Rightarrow> jv \<Rightarrow> jv \<Rightarrow> rule_state" where
  "push_component st nm n =
     st\<lparr>components := components st @ [\<lparr>name = nm, component_node = n, isCompoundChild = False\<rparr>]\<rparr>"

definition AssignmentExpression_body :: "rule_state \<Rightarrow> jv \<Rightarrow> rule_state option" where
  "AssignmentExpression_body st n = do {
     left \<leftarrow> getp n ''left'';
     lt \<leftarrow> getp left ''type'';
     if lt = JStr ''MemberExpression''
     then do {
       lo \<leftarrow> getp left ''object'';
       lot \<leftarrow> getp lo ''type'';
       if lot = JStr ''Identifier''
       then do {
         lp \<leftarrow> getp left ''property'';
         lpt \<leftarrow> getp lp ''type'';
         if lpt = JStr ''Identifier''
         then do {
           right \<leftarrow> getp n ''right'';
           rt \<leftarrow> getp right ''type'';
           if rt = JStr ''Identifier''
           then do {
             rn \<leftarrow> getp right ''name'';
             Some (st\<lparr>compoundChildren := compoundChildren st @ [rn]\<rparr>)
           }
           else Some st
         }
         else Some st
       }
       else Some st
     }
     else Some st
   }"

definition AssignmentExpression_listener :: "rule_state \<Rightarrow> jv \<Rightarrow> rule_state" where
  "AssignmentExpression_listener st n =
     (case AssignmentExpression_body st n of None \<Rightarrow> st | Some st' \<Rightarrow> st')"

text \<open>\<^verbatim>\<open>node.id?.name || 'anonymous'\<close>.\<close>

definition id_name_or_anonymous :: "jv \<Rightarrow> jv option" where
  "id_name_or_anonymous n = do {
     idv \<leftarrow> getp n ''id'';
     nm \<leftarrow> (if idv = JUndef \<or> idv = JNull then Some JUndef else getp idv ''name'');
     Some (if truthy nm then nm else JStr ''anonymous'')
   }"

definition FunctionDeclaration_body :: "rule_state \<Rightarrow> jv \<Rightarrow> rule_state option" where
  "FunctionDeclaration_body st n =
     (if isReactComponent n
      then do { nm \<leftarrow> id_name_or_anonymous n; Some (push_component st nm n) }
      else Some st)"

definition FunctionDeclaration_listener :: "rule_state \<Rightarrow> jv \<Rightarrow> rule_state" where
  "FunctionDeclaration_listener st n =
     (case FunctionDeclaration_body st n of None \<Rightarrow> st | Some st' \<Rightarrow> st')"

definition VariableDeclarator_body :: "rule_state \<Rightarrow> jv \<Rightarrow> rule_state option" where
  "VariableDeclarator_body st n =
     (if isReactComponent n
      then do {
        idv \<leftarrow> getp n ''id'';
        it \<leftarrow> getp idv ''type'';
        nm \<leftarrow> (if it = JStr ''Identifier'' then getp idv ''name'' else Some (JStr ''anonymous''));
        Some (push_component st nm n)
      }
      else Some st)"

definition VariableDeclarator_listener :: "rule_state \<Rightarrow> jv \<Rightarrow> rule_state" where
  "VariableDeclarator_listener st n =
     (case VariableDeclarator_body st n of None \<Rightarrow> st | Some st' \<Rightarrow> st')"

definition ClassDeclaration_body :: "rule_state \<Rightarrow> jv \<Rightarrow> rule_state option" where
  "ClassDeclaration_body st n =
     (if isReactComponent n
      then do { nm \<leftarrow> id_name_or_anonymous n; Some (push_component st nm n) }
      else Some st)"

definition ClassDeclaration_listener :: "rule_state \<Rightarrow> jv \<Rightarrow> rule_state" where
  "ClassDeclaration_listener st n =
     (case ClassDeclaration_body st n of None \<Rightarrow> st | Some st' \<Rightarrow> st')"

text \<open>\<^verbatim>\<open>Program:exit\<close>: mark, filter, report on the second remaining definition. With
  more than one element the read \<^verbatim>\<open>nonCompoundComponents[1]\<close> is in range.\<close>

definition mark_compound :: "jv list \<Rightarrow> ComponentInfo \<Rightarrow> ComponentInfo" where
  "mark_compound children c =
     (if list_ex (strict_eq (name c)) children then c\<lparr>isCompoundChild := True\<rparr> else c)"

definition Program_exit :: "rule_state \<Rightarrow> diag list" where
  "Program_exit st =
     (let marked = map (mark_compound (compoundChildren st)) (components st);
          nonCompoundComponents = filter (\<lambda>c. \<not> isCompoundChild c) marked
      in if length nonCompoundComponents > 1
         then [\<lparr>messageId = ''multipleComponents'',
                 node = component_node (nonCompoundComponents ! 1),
                 data = [(''count'', JNum (int (length nonCompoundComponents))),
                         (''componentNames'',
                          JStr (join_with '', '' (map (element_string \<circ> name) nonCompoundComponents)))],
                 fix_edit = None\<rparr>]
         else [])"

text \<open>The host calls the listener registered for the type of each node of the file, then
  \<^verbatim>\<open>Program:exit\<close>.\<close>

definition component_listener :: "rule_state \<Rightarrow> jv \<Rightarrow> rule_state" where
  "component_listener st n =
     (case getp n ''type'' of
        Some (JStr t) \<Rightarrow>
          if t = ''AssignmentExpression'' then AssignmentExpression_listener st n
          else if t = ''FunctionDeclaration'' then FunctionDeclaration_listener st n
          else if t = ''VariableDeclarator'' then VariableDeclarator_listener st n
          else if t = ''ClassDeclaration'' then ClassDeclaration_listener st n
          else st
      | _ \<Rightarrow> st)"

definition oneComponentPerFile :: "jv list \<Rightarrow> diag list" where
  "oneComponentPerFile ns = Program_exit (foldl component_listener initial_state ns)"

subsection \<open>The definitions and compound children of a file\<close>

text \<open>
  In the words of the specification: a property assignment is an assignment whose left
  side is a member access of an identifier property on an identifier, and whose right
  side is an identifier; that identifier's name is a compound child. A component
  definition is a function declaration, variable declarator or class declaration that
  the classifier accepts, with the name the rule gives it.
\<close>

definition compound_child :: "jv \<Rightarrow> jv option" where
  "compound_child n =
     (case (getp n ''left'', getp n ''right'') of
        (Some left, Some right) \<Rightarrow>
          (case (getp left ''object'', getp left ''property'') of
             (Some lo, Some lp) \<Rightarrow>
               if is_node ''AssignmentExpression'' n \<and> is_node ''MemberExpression'' left
                  \<and> is_node ''Identifier'' lo \<and> is_node ''Identifier'' lp
                  \<and> is_node ''Identifier'' right
               then getp right ''name'' else None
           | _ \<Rightarrow> None)
      | _ \<Rightarrow> None)"

definition definition_name :: "jv \<Rightarrow> jv option" where
  "definition_name n =
     (if \<not> isReactComponent n then None
      else if is_node ''FunctionDeclaration'' n \<or> is_node ''ClassDeclaration'' n
      then id_name_or_anonymous n
      else if is_node ''VariableDeclarator'' n
      then (case getp n ''id'' of
              None \<Rightarrow> None
            | Some idv \<Rightarrow>
                if is_node ''Identifier'' idv then getp idv ''name''
                else if idv = JUndef \<or> idv = JNull then None
                else Some (JStr ''anonymous''))
      else None)"

definition file_definitions :: "jv list \<Rightarrow> (jv \<times> jv) list" where
  "file_definitions ns =
     List.map_filter (\<lambda>n. map_option (\<lambda>nm. (nm, n)) (definition_name n)) ns"

definition file_compound_children :: "jv list \<Rightarrow> jv list" where
  "file_compound_children ns = List.map_filter compound_child ns"

definition remaining_definitions :: "jv list \<Rightarrow> (jv \<times> jv) list" where
  "remaining_definitions ns =
     filter (\<lambda>d. \<not> list_ex (strict_eq (fst d)) (file_compound_children ns)) (file_definitions ns)"

definition multipleComponents :: "(jv \<times> jv) list \<Rightarrow> diag" where
  "multipleComponents remaining =
     \<lparr>messageId = ''multipleComponents'', node = snd (remaining ! 1),
      data = [(''count'', JNum (int (length remaining))),
              (''componentNames'', JStr (join_with '', '' (map (element_string \<circ> fst) remaining)))],
      fix_edit = None\<rparr>"

subsection \<open>Sample file: \<^verbatim>\<open>Card\<close>, \<^verbatim>\<open>CardHeader\<close> and \<^verbatim>\<open>Card.Header = CardHeader\<close>\<close>

definition jsx_element :: jv where
  "jsx_element = JObj [(''type'', JStr ''JSXElement'')]"

definition function_declaration :: "string \<Rightarrow> jv list \<Rightarrow> jv list \<Rightarrow> jv" where
  "function_declaration nm params stmts =
     JObj [(''type'', JStr ''FunctionDeclaration''), (''id'', ident nm),
           (''params'', JArr params), (''body'', block stmts)]"

definition assignment :: "jv \<Rightarrow> jv \<Rightarrow> jv" where
  "assignment l r =
     JObj [(''type'', JStr ''AssignmentExpression''), (''operator'', JStr ''=''),
           (''left'', l), (''right'', r)]"

definition Card :: jv where
  "Card = function_declaration ''Card'' [] [return_stmt jsx_element]"

definition CardHeader :: jv where
  "CardHeader = function_declaration ''CardHeader'' [] [return_stmt jsx_element]"

definition Card_Header_assignment :: jv where
  "Card_Header_assignment =
     assignment (member (ident ''Card'') (ident ''Header'')) (ident ''CardHeader'')"

subsection \<open>The state after one node, for the proofs\<close>

text \<open>What one node of the file adds to the two accumulators: its entry as a definition
  and its compound child, if any.\<close>

definition mk_info :: "jv \<times> jv \<Rightarrow> ComponentInfo" where
  "mk_info d = \<lparr>name = fst d, component_node = snd d, isCompoundChild = False\<rparr>"

definition def_entry :: "jv \<Rightarrow> (jv \<times> jv) list" where
  "def_entry n = (case definition_name n of None \<Rightarrow> [] | Some nm \<Rightarrow> [(nm, n)])"

definition child_entry :: "jv \<Rightarrow> jv list" where
  "child_entry n = (case compound_child n of None \<Rightarrow> [] | Some r \<Rightarrow> [r])"

definition step_state :: "rule_state \<Rightarrow> jv \<Rightarrow> rule_state" where
  "step_state st n =
     \<lparr>components = components st @ map mk_info (def_entry n),
      compoundChildren = compoundChildren st @ child_entry n\<rparr>"

section \<open>Import analysis, strategy selection and fix synthesis\<close>

subsection \<open>Index reads and numeric tests\<close>

text \<open>The index read \<^verbatim>\<open>v[i]\<close>, and the tests \<^verbatim>\<open>x > 0\<close> and \<^verbatim>\<open>x === 0\<close> on a length.\<close>

fun geti :: "jv \<Rightarrow> nat \<Rightarrow> jv option" where
  "geti JUndef i = None"
| "geti JNull i = None"
| "geti (JArr xs) i = Some (if i < length xs then xs ! i else JUndef)"
| "geti (JStr s) i = Some (if i < length s then JStr [s ! i] else JUndef)"
| "geti (JObj fs) i = Some (case map_of fs (dec i) of Some v \<Rightarrow> v | None \<Rightarrow> JUndef)"
| "geti (JBool b) i = Some JUndef"
| "geti (JNum n) i = Some JUndef"

definition positive :: "jv \<Rightarrow> bool" where
  "positive v = (case to_number v of None \<Rightarrow> False | Some n \<Rightarrow> n > 0)"

text \<open>\<^verbatim>\<open>p + 1\<close> for a position read from a range. On a number it is the successor and on a
  string the concatenation; on \<^verbatim>\<open>undefined\<close> and on objects the sum is not a number, which
  the model writes as \<open>JUndef\<close>.\<close>

fun plus_one :: "jv \<Rightarrow> jv" where
  "plus_one (JNum n) = JNum (n + 1)"
| "plus_one JNull = JNum 1"
| "plus_one (JBool b) = JNum (if b then 2 else 1)"
| "plus_one (JStr s) = JStr (s @ ''1'')"
| "plus_one v = JUndef"

text \<open>An edit \<^verbatim>\<open>{ range: [p, q], text }\<close> whose positions are values read from the tree.\<close>

type_synonym ImportFix = "(jv \<times> jv) \<times> string"

subsection \<open>\<^verbatim>\<open>analyzeReactImport\<close>\<close>

datatype ReactImportStyle = NAMESPACE | DEFAULT_ONLY | NAMED_ONLY | MIXED | NONE

record ReactImportAnalysis =
  style :: ReactImportStyle
  hasDefaultImport :: bool
  hasNamedImports :: bool
  hasMemoImport :: bool
  importNode :: jv

definition no_import :: ReactImportAnalysis where
  "no_import = \<lparr>style = NONE, hasDefaultImport = False, hasNamedImports = False,
                 hasMemoImport = False, importNode = JNull\<rparr>"

text \<open>The loop that finds the first import declaration of a module (\<^verbatim>\<open>null\<close> if none).\<close>

fun find_import :: "string \<Rightarrow> jv list \<Rightarrow> jv option" where
  "find_import src [] = Some JNull"
| "find_import src (statement # rest) = do {
     t \<leftarrow> getp statement ''type'';
     if t = JStr ''ImportDeclaration''
     then do {
       source \<leftarrow> getp statement ''source'';
       v \<leftarrow> getp source ''value'';
       if v = JStr src then Some statement else find_import src rest
     }
     else find_import src rest
   }"

text \<open>The loop over the specifiers, with the four flags (default, named, namespace, memo).\<close>

fun scan_specifiers :: "jv list \<Rightarrow> bool \<times> bool \<times> bool \<times> bool \<Rightarrow> (bool \<times> bool \<times> bool \<times> bool) option"
where
  "scan_specifiers [] flags = Some flags"
| "scan_specifiers (specifier # rest) (d, n, ns, m) = do {
     t \<leftarrow> getp specifier ''type'';
     if t = JStr ''ImportDefaultSpecifier'' then scan_specifiers rest (True, n, ns, m)
     else if t = JStr ''ImportNamespaceSpecifier'' then scan_specifiers rest (d, n, True, m)
     else if t = JStr ''ImportSpecifier''
     then do {
       imported \<leftarrow> getp specifier ''imported'';
       it \<leftarrow> getp imported ''type'';
       isMemo \<leftarrow> (if it = JStr ''Identifier''
                  then do { nm \<leftarrow> getp imported ''name''; Some (nm = JStr ''memo'') }
                  else Some False);
       scan_specifiers rest (d, True, ns, if isMemo then True else m)
     }
     else scan_specifiers rest (d, n, ns, m)
   }"

definition analyzeReactImport_body :: "jv \<Rightarrow> ReactImportAnalysis option" where
  "analyzeReactImport_body programNode = do {
     b \<leftarrow> getp programNode ''body'';
     statements \<leftarrow> iter b;
     reactImport \<leftarrow> find_import ''react'' statements;
     if \<not> truthy reactImport then Some no_import
     else do {
       sp \<leftarrow> getp reactImport ''specifiers'';
       specifiers \<leftarrow> iter sp;
       (d, n, ns, m) \<leftarrow> scan_specifiers specifiers (False, False, False, False);
       Some \<lparr>style = (if ns then NAMESPACE
                       else if d \<and> n then MIXED
                       else if d then DEFAULT_ONLY
                       else if n then NAMED_ONLY
                       else NONE),
             hasDefaultImport = d, hasNamedImports = n, hasMemoImport = m,
             importNode = reactImport\<rparr>
     }
   }"

definition analyzeReactImport :: "jv \<Rightarrow> ReactImportAnalysis" where
  "analyzeReactImport programNode =
     (case analyzeReactImport_body programNode of None \<Rightarrow> no_import | Some a \<Rightarrow> a)"

subsection \<open>\<^verbatim>\<open>selectMemoStrategy\<close>\<close>

datatype ImportUpdateStrategy = NO_UPDATE | ADD_TO_NAMED | ADD_NAMED_TO_DEFAULT | CREATE_NEW_IMPORT

record MemoStrategy =
  memoReference :: string
  needsMemoImport :: bool
  importUpdateStrategy :: ImportUpdateStrategy

text \<open>The argument is an analysis record, so no read in the body throws and the
  \<^verbatim>\<open>catch\<close> branch is never taken.\<close>

definition selectMemoStrategy :: "ReactImportAnalysis \<Rightarrow> MemoStrategy" where
  "selectMemoStrategy analysis =
     (if hasMemoImport analysis
      then \<lparr>memoReference = ''memo'', needsMemoImport = False, importUpdateStrategy = NO_UPDATE\<rparr>
      else if style analysis = NAMESPACE
      then \<lparr>memoReference = ''React.memo'', needsMemoImport = False,
             importUpdateStrategy = NO_UPDATE\<rparr>
      else if style analysis = DEFAULT_ONLY
      then \<lparr>memoReference = ''React.memo'', needsMemoImport = False,
             importUpdateStrategy = NO_UPDATE\<rparr>
      else if style analysis = NAMED_ONLY
      then \<lparr>memoReference = ''memo'', needsMemoImport = True,
             importUpdateStrategy = ADD_TO_NAMED\<rparr>
      else if style analysis = MIXED
      then \<lparr>memoReference = ''memo'', needsMemoImport = True,
             importUpdateStrategy = ADD_TO_NAMED\<rparr>
      else \<lparr>memoReference = ''memo'', needsMemoImport = True,
             importUpdateStrategy = CREATE_NEW_IMPORT\<rparr>)"

subsection \<open>\<^verbatim>\<open>updateImports\<close>\<close>

definition is_type :: "string \<Rightarrow> jv \<Rightarrow> bool option" where
  "is_type t spec = do { st \<leftarrow> getp spec ''type''; Some (st = JStr t) }"

text \<open>\<^verbatim>\<open>xs.find(f)\<close>: the first element accepted, \<^verbatim>\<open>undefined\<close> if there is none.\<close>

fun find_throwing :: "(jv \<Rightarrow> bool option) \<Rightarrow> jv list \<Rightarrow> jv option" where
  "find_throwing f [] = Some JUndef"
| "find_throwing f (x # xs) = do { b \<leftarrow> f x; if b then Some x else find_throwing f xs }"

text \<open>\<^verbatim>\<open>programNode.range ? programNode.range[0] : 0\<close>.\<close>

definition program_start :: "jv \<Rightarrow> jv option" where
  "program_start programNode = do {
     r \<leftarrow> getp programNode ''range'';
     if truthy r then geti r 0 else Some (JNum 0)
   }"

text \<open>The four tests on \<^verbatim>\<open>strategy.importUpdateStrategy\<close> exclude one another, so the
  sequence of \<^verbatim>\<open>if\<close> statements is a case distinction.\<close>

definition updateImports_body ::
  "MemoStrategy \<Rightarrow> jv \<Rightarrow> jv \<Rightarrow> (ImportFix list \<times> string list) option" where
  "updateImports_body strategy impNode programNode =
     (case importUpdateStrategy strategy of
        NO_UPDATE \<Rightarrow> Some ([], [])
      | ADD_TO_NAMED \<Rightarrow>
          if \<not> truthy impNode then Some ([], [])
          else do {
            r \<leftarrow> getp impNode ''range'';
            if \<not> truthy r then Some ([], [])
            else do {
              sp \<leftarrow> getp impNode ''specifiers'';
              specifiers \<leftarrow> elems sp;
              namedSpecifiers \<leftarrow> filter_throwing (is_type ''ImportSpecifier'') specifiers;
              if namedSpecifiers = [] then Some ([], [])
              else do {
                lr \<leftarrow> getp (last namedSpecifiers) ''range'';
                if \<not> truthy lr then Some ([], [])
                else do {
                  insertPosition \<leftarrow> geti lr 1;
                  Some ([((insertPosition, insertPosition), '', memo'')], [''memo''])
                }
              }
            }
          }
      | ADD_NAMED_TO_DEFAULT \<Rightarrow>
          if \<not> truthy impNode then Some ([], [])
          else do {
            r \<leftarrow> getp impNode ''range'';
            if \<not> truthy r then Some ([], [])
            else do {
              sp \<leftarrow> getp impNode ''specifiers'';
              specifiers \<leftarrow> elems sp;
              defaultSpecifier \<leftarrow> find_throwing (is_type ''ImportDefaultSpecifier'') specifiers;
              if \<not> truthy defaultSpecifier then Some ([], [])
              else do {
                dr \<leftarrow> getp defaultSpecifier ''range'';
                if \<not> truthy dr then Some ([], [])
                else do {
                  insertPosition \<leftarrow> geti dr 1;
                  Some ([((insertPosition, insertPosition), '', { memo }'')], [''memo''])
                }
              }
            }
          }
      | CREATE_NEW_IMPORT \<Rightarrow> do {
          insertPosition \<leftarrow> program_start programNode;
          Some ([((insertPosition, insertPosition),
                  ''import { memo } from '' @ [CHR 0x27] @ ''react'' @ [CHR 0x27] @ '';''
                    @ [CHR 0x0A])],
                [''memo''])
        })"

definition updateImports :: "MemoStrategy \<Rightarrow> jv \<Rightarrow> jv \<Rightarrow> ImportFix list \<times> string list" where
  "updateImports strategy impNode programNode =
     (case updateImports_body strategy impNode programNode of
        None \<Rightarrow> ([], [])
      | Some r \<Rightarrow> r)"

subsection \<open>Sample import declarations\<close>

definition ranged :: "jv \<Rightarrow> int \<times> int \<Rightarrow> jv" where
  "ranged n r =
     (case n of JObj fs \<Rightarrow> JObj (fs @ [(''range'', JArr [JNum (fst r), JNum (snd r)])]) | _ \<Rightarrow> n)"

definition import_default :: "string \<Rightarrow> jv" where
  "import_default nm = JObj [(''type'', JStr ''ImportDefaultSpecifier''), (''local'', ident nm)]"

definition import_named :: "string \<Rightarrow> jv" where
  "import_named nm =
     JObj [(''type'', JStr ''ImportSpecifier''), (''imported'', ident nm), (''local'', ident nm)]"

definition import_declaration :: "jv list \<Rightarrow> string \<Rightarrow> jv" where
  "import_declaration specs src =
     JObj [(''type'', JStr ''ImportDeclaration''), (''specifiers'', JArr specs),
           (''source'', JObj [(''type'', JStr ''Literal''), (''value'', JStr src)])]"

definition program :: "jv list \<Rightarrow> jv" where
  "program stmts = JObj [(''type'', JStr ''Program''), (''body'', JArr stmts)]"

text \<open>\<^verbatim>\<open>import React from 'react';\<close> and \<^verbatim>\<open>import { useState } from 'react';\<close>\<close>

definition import_React :: jv where
  "import_React =
     ranged (import_declaration [ranged (import_default ''React'') (7, 12)] ''react'') (0, 26)"

definition import_useState :: jv where
  "import_useState =
     ranged (import_declaration [ranged (import_named ''useState'') (9, 17)] ''react'') (0, 33)"

subsection \<open>\<^verbatim>\<open>addTypeAnnotation\<close>\<close>

record TypeAnnotationStrategy =
  propsType :: string
  needsTypeImport :: bool
  typeImportSource :: "string option"
  needsComponentImport :: bool

text \<open>
  The code for the first parameter, which the source has twice (for a function
  declaration and for an arrow function). The result \<open>Some None\<close> is the early
  \<^verbatim>\<open>return { fixes: [], success: false }\<close>; \<open>Some (Some fixes)\<close> goes on with the
  fixes pushed so far.
\<close>

definition annotate_first_param :: "jv \<Rightarrow> string \<Rightarrow> ImportFix list option option" where
  "annotate_first_param params ptype = do {
     firstParam \<leftarrow> geti params 0;
     ft \<leftarrow> getp firstParam ''type'';
     annotated \<leftarrow> (if ft = JStr ''Identifier''
                    then do { ta \<leftarrow> getp firstParam ''typeAnnotation''; Some (truthy ta) }
                    else Some False);
     if annotated then Some None
     else if ft = JStr ''Identifier''
     then do {
       r \<leftarrow> getp firstParam ''range'';
       if truthy r
       then do {
         insertPosition \<leftarrow> geti r 1;
         Some (Some [((insertPosition, insertPosition), '': '' @ ptype)])
       }
       else Some (Some [])
     }
     else Some (Some [])
   }"

text \<open>\<^verbatim>\<open>func.id && func.id.range && func.body.range\<close>.\<close>

definition has_id_and_body_range :: "jv \<Rightarrow> bool option" where
  "has_id_and_body_range func = do {
     fid \<leftarrow> getp func ''id'';
     if truthy fid
     then do {
       ir \<leftarrow> getp fid ''range'';
       if truthy ir
       then do { b \<leftarrow> getp func ''body''; br \<leftarrow> getp b ''range''; Some (truthy br) }
       else Some False
     }
     else Some False
   }"

text \<open>The two blocks on \<^verbatim>\<open>componentNode.type\<close>, which exclude one another.\<close>

definition component_fixes :: "jv \<Rightarrow> TypeAnnotationStrategy \<Rightarrow> ImportFix list option option"
where
  "component_fixes componentNode strategy = do {
     t \<leftarrow> getp componentNode ''type'';
     if t = JStr ''FunctionDeclaration''
     then do {
       params \<leftarrow> getp componentNode ''params'';
       len \<leftarrow> getp params ''length'';
       if positive len then annotate_first_param params (propsType strategy)
       else do {
         ok \<leftarrow> has_id_and_body_range componentNode;
         if ok
         then do {
           fid \<leftarrow> getp componentNode ''id'';
           ir \<leftarrow> getp fid ''range'';
           openParenPosition \<leftarrow> geti ir 1;
           Some (Some [((plus_one openParenPosition, plus_one openParenPosition),
                        ''props: '' @ propsType strategy)])
         }
         else Some (Some [])
       }
     }
     else if t = JStr ''VariableDeclarator''
     then do {
       init \<leftarrow> getp componentNode ''init'';
       isArrow \<leftarrow> (if truthy init
                   then do { it \<leftarrow> getp init ''type'';
                             Some (it = JStr ''ArrowFunctionExpression'') }
                   else Some False);
       if isArrow
       then do {
         params \<leftarrow> getp init ''params'';
         len \<leftarrow> getp params ''length'';
         if positive len then annotate_first_param params (propsType strategy)
         else Some (Some [])
       }
       else Some (Some [])
     }
     else Some (Some [])
   }"

definition imported_name :: "jv \<Rightarrow> jv option" where
  "imported_name spec = do {
     imported \<leftarrow> getp spec ''imported'';
     it \<leftarrow> getp imported ''type'';
     if it = JStr ''Identifier'' then getp imported ''name'' else Some JNull
   }"

definition quoted :: "string \<Rightarrow> string" where
  "quoted s = [CHR 0x27] @ s @ [CHR 0x27]"

text \<open>The block that makes the props type importable.\<close>

definition type_import_fixes :: "TypeAnnotationStrategy \<Rightarrow> jv \<Rightarrow> ImportFix list option" where
  "type_import_fixes strategy programNode =
     (case typeImportSource strategy of
        None \<Rightarrow> Some []
      | Some src \<Rightarrow>
          if \<not> (needsTypeImport strategy \<and> src \<noteq> []) then Some []
          else do {
            b \<leftarrow> getp programNode ''body'';
            statements \<leftarrow> iter b;
            reactNativeSvgImport \<leftarrow> find_import src statements;
            if truthy reactNativeSvgImport
            then do {
              sp \<leftarrow> getp reactNativeSvgImport ''specifiers'';
              specifiers \<leftarrow> elems sp;
              namedSpecifiers \<leftarrow> filter_throwing (is_type ''ImportSpecifier'') specifiers;
              names \<leftarrow> those (map imported_name namedSpecifiers);
              (let importedNames = filter (\<lambda>nm. nm \<noteq> JNull) names;
                   needsSvgProps = \<not> list_ex (strict_eq (JStr ''SvgProps'')) importedNames;
                   needsSvg = (needsComponentImport strategy
                               \<and> \<not> list_ex (strict_eq (JStr ''Svg'')) importedNames)
               in if (needsSvgProps \<or> needsSvg) \<and> namedSpecifiers \<noteq> []
                  then do {
                    lr \<leftarrow> getp (last namedSpecifiers) ''range'';
                    if truthy lr
                    then do {
                      p \<leftarrow> geti lr 1;
                      Some [((p, p),
                             '', '' @ join_with '', ''
                                      ((if needsSvgProps then [''SvgProps''] else [])
                                       @ (if needsSvg then [''Svg''] else [])))]
                    }
                    else Some []
                  }
                  else Some [])
            }
            else do {
              insertPosition \<leftarrow> program_start programNode;
              Some [((insertPosition, insertPosition),
                     ''import { ''
                     @ join_with '', ''
                         ([''SvgProps''] @ (if needsComponentImport strategy then [''Svg''] else []))
                     @ '' } from '' @ quoted src @ '';'' @ [CHR 0x0A])]
            }
          })"

definition addTypeAnnotation_body ::
  "jv \<Rightarrow> TypeAnnotationStrategy \<Rightarrow> jv \<Rightarrow> (ImportFix list \<times> bool) option" where
  "addTypeAnnotation_body componentNode strategy programNode = do {
     r \<leftarrow> component_fixes componentNode strategy;
     (case r of
        None \<Rightarrow> Some ([], False)
      | Some fixes1 \<Rightarrow> do {
          fixes2 \<leftarrow> type_import_fixes strategy programNode;
          Some (fixes1 @ fixes2, fixes1 @ fixes2 \<noteq> [])
        })
   }"

definition addTypeAnnotation ::
  "jv \<Rightarrow> TypeAnnotationStrategy \<Rightarrow> jv \<Rightarrow> ImportFix list \<times> bool" where
  "addTypeAnnotation componentNode strategy programNode =
     (case addTypeAnnotation_body componentNode strategy programNode of
        None \<Rightarrow> ([], False)
      | Some r \<Rightarrow> r)"

subsection \<open>The first parameter of a component, and sample components\<close>

text \<open>The target component's first parameter: of a function declaration, or of the arrow
  function a variable declarator is bound to.\<close>

definition first_param :: "jv \<Rightarrow> jv option" where
  "first_param c =
     (if is_node ''FunctionDeclaration'' c
      then (case getp c ''params'' of Some (JArr (p # ps)) \<Rightarrow> Some p | _ \<Rightarrow> None)
      else if is_node ''VariableDeclarator'' c
      then (case getp c ''init'' of
              Some init \<Rightarrow>
                if is_node ''ArrowFunctionExpression'' init
                then (case getp init ''params'' of Some (JArr (p # ps)) \<Rightarrow> Some p | _ \<Rightarrow> None)
                else None
            | None \<Rightarrow> None)
      else None)"

definition type_annotation :: jv where
  "type_annotation = JObj [(''type'', JStr ''TSTypeAnnotation'')]"

definition annotated_ident :: "string \<Rightarrow> jv" where
  "annotated_ident nm =
     JObj [(''type'', JStr ''Identifier''), (''name'', JStr nm),
           (''typeAnnotation'', type_annotation), (''range'', JArr [JNum 14, JNum 26])]"

definition annotated_pattern :: jv where
  "annotated_pattern =
     JObj [(''type'', JStr ''ObjectPattern''), (''properties'', JArr []),
           (''typeAnnotation'', type_annotation), (''range'', JArr [JNum 14, JNum 29])]"

definition arrow_declarator :: "string \<Rightarrow> jv list \<Rightarrow> jv" where
  "arrow_declarator nm params =
     JObj [(''type'', JStr ''VariableDeclarator''), (''id'', ident nm),
           (''init'', JObj [(''type'', JStr ''ArrowFunctionExpression''),
                            (''params'', JArr params), (''expression'', JBool True),
                            (''body'', jsx_element)])]"

definition react_native_strategy :: TypeAnnotationStrategy where
  "react_native_strategy =
     \<lparr>propsType = ''SvgProps'', needsTypeImport = True,
      typeImportSource = Some ''react-native-svg'', needsComponentImport = True\<rparr>"

subsection \<open>A type guard without a \<^verbatim>\<open>try\<close>\<close>


subsection \<open>Malformed sample nodes\<close>














subsection \<open>Shapes of well-formed input\<close>

text \<open>\<^verbatim>\<open>null\<close> and \<^verbatim>\<open>undefined\<close> are the values a property read throws on.\<close>

definition nullish :: "jv \<Rightarrow> bool" where
  "nullish v = (v = JUndef \<or> v = JNull)"


section \<open>Tree walker (\<^verbatim>\<open>traverseNode\<close>)\<close>

subsection \<open>Objects with identity\<close>

text \<open>
  The walker keeps a \<^verbatim>\<open>WeakSet\<close> of the node objects it has started to visit, so what it
  does depends on which property values are the same object. Objects therefore live in a
  store: an object is named by its address, the index of its property list in the store,
  and a property value is a primitive, a reference to an object, or an array of such
  values. An address outside the store names no object.
\<close>

datatype hval = HPrim | HRef nat | HArr "hval list"

type_synonym hobj = "(string \<times> hval) list"

type_synonym heap = "hobj list"

text \<open>\<^verbatim>\<open>"type" in x\<close> for the object at an address.\<close>

definition is_node_at :: "heap \<Rightarrow> nat \<Rightarrow> bool" where
  "is_node_at h a = (a < length h \<and> map_of (h ! a) ''type'' \<noteq> None)"

text \<open>
  The nodes that the body of \<^verbatim>\<open>traverse\<close> hands to the recursive call, in order: for each
  key other than \<open>parent\<close>, the value itself when it is an object with a \<open>type\<close> key, or
  those of its elements that are such objects when it is an array. Primitives, objects
  without \<open>type\<close> and arrays inside arrays are passed over.
\<close>

fun item_nodes :: "heap \<Rightarrow> hval \<Rightarrow> nat list" where
  "item_nodes h (HRef a) = (if is_node_at h a then [a] else [])"
| "item_nodes h HPrim = []"
| "item_nodes h (HArr xs) = []"

fun child_nodes :: "heap \<Rightarrow> hval \<Rightarrow> nat list" where
  "child_nodes h (HArr items) = concat (map (item_nodes h) items)"
| "child_nodes h (HRef a) = (if is_node_at h a then [a] else [])"
| "child_nodes h HPrim = []"

definition children :: "heap \<Rightarrow> nat \<Rightarrow> nat list" where
  "children h a =
     concat (map (\<lambda>(key, child). if key = ''parent'' then [] else child_nodes h child) (h ! a))"

subsection \<open>The walk\<close>

text \<open>
  The visitor is a callback with its own state. A call either returns or throws, and in
  both cases leaves a state behind, since what the callback did before it threw stays
  done. \<^verbatim>\<open>traverseNode\<close> has no \<^verbatim>\<open>try\<close>, so an exception of the visitor ends the
  walk and leaves \<^verbatim>\<open>traverseNode\<close>. The visitor does not change the tree.

  The recursion of \<^verbatim>\<open>traverse\<close> is written with its pending calls made explicit:
  \<open>pending\<close> lists, in order, the nodes that the loops of the active calls have still to
  hand to \<^verbatim>\<open>traverse\<close>. A call on a node already in \<open>visited\<close> returns at once; otherwise
  the node is added, the visitor runs, and the node's children come before the rest.
\<close>

datatype 's outcome = Returned 's | Thrown 's

function walk ::
  "heap \<Rightarrow> (nat \<Rightarrow> 's \<Rightarrow> 's outcome) \<Rightarrow> nat list \<Rightarrow> nat set \<Rightarrow> 's \<Rightarrow> 's outcome" where
  "walk h visitor [] visited s = Returned s"
| "walk h visitor (currentNode # pending) visited s =
     (if currentNode \<in> visited \<or> \<not> currentNode < length h
      then walk h visitor pending visited s
      else (case visitor currentNode s of
              Thrown s' \<Rightarrow> Thrown s'
            | Returned s' \<Rightarrow>
                walk h visitor (children h currentNode @ pending) (insert currentNode visited) s'))"
  by pat_completeness auto
termination
proof (relation "inv_image (less_than <*lex*> less_than)
    (\<lambda>(h, visitor, pending, visited, s). (card ({..<length h} - visited), length pending))")
  show "wf (inv_image (less_than <*lex*> less_than)
    (\<lambda>(h, visitor, pending, visited, s). (card ({..<length h} - visited), length pending)))"
    by (intro wf_inv_image wf_lex_prod wf_less_than)
next
  fix h :: heap and visitor :: "nat \<Rightarrow> 's \<Rightarrow> 's outcome" and currentNode pending visited
    and s :: 's
  show "((h, visitor, pending, visited, s), (h, visitor, currentNode # pending, visited, s))
    \<in> inv_image (less_than <*lex*> less_than)
    (\<lambda>(h, visitor, pending, visited, s). (card ({..<length h} - visited), length pending))"
    by simp
next
  fix h :: heap and visitor :: "nat \<Rightarrow> 's \<Rightarrow> 's outcome" and currentNode pending visited
    and s s' :: 's
  assume "\<not> (currentNode \<in> visited \<or> \<not> currentNode < length h)"
  then have "{..<length h} - insert currentNode visited \<subset> {..<length h} - visited"
    by auto
  then have "card ({..<length h} - insert currentNode visited) < card ({..<length h} - visited)"
    by (intro psubset_card_mono) auto
  then show "((h, visitor, children h currentNode @ pending, insert currentNode visited, s'),
       (h, visitor, currentNode # pending, visited, s))
    \<in> inv_image (less_than <*lex*> less_than)
    (\<lambda>(h, visitor, pending, visited, s). (card ({..<length h} - visited), length pending))"
    by simp
qed

definition traverseNode :: "heap \<Rightarrow> nat \<Rightarrow> (nat \<Rightarrow> 's \<Rightarrow> 's outcome) \<Rightarrow> 's \<Rightarrow> 's outcome" where
  "traverseNode h root visitor s = walk h visitor [root] {} s"

subsection \<open>The sequence of visits, and reachability\<close>

text \<open>The nodes that are handed to the visitor, in order, as long as it returns.\<close>

function visits :: "heap \<Rightarrow> nat list \<Rightarrow> nat set \<Rightarrow> nat list" where
  "visits h [] visited = []"
| "visits h (currentNode # pending) visited =
     (if currentNode \<in> visited \<or> \<not> currentNode < length h
      then visits h pending visited
      else currentNode
           # visits h (children h currentNode @ pending) (insert currentNode visited))"
  by pat_completeness auto
termination
proof (relation "inv_image (less_than <*lex*> less_than)
    (\<lambda>(h, pending, visited). (card ({..<length h} - visited), length pending))")
  show "wf (inv_image (less_than <*lex*> less_than)
    (\<lambda>(h, pending, visited). (card ({..<length h} - visited), length pending)))"
    by (intro wf_inv_image wf_lex_prod wf_less_than)
next
  fix h :: heap and currentNode pending visited
  show "((h, pending, visited), (h, currentNode # pending, visited))
    \<in> inv_image (less_than <*lex*> less_than)
    (\<lambda>(h, pending, visited). (card ({..<length h} - visited), length pending))"
    by simp
next
  fix h :: heap and currentNode pending visited
  assume "\<not> (currentNode \<in> visited \<or> \<not> currentNode < length h)"
  then have "{..<length h} - insert currentNode visited \<subset> {..<length h} - visited"
    by auto
  then have "card ({..<length h} - insert currentNode visited) < card ({..<length h} - visited)"
    by (intro psubset_card_mono) auto
  then show "((h, children h currentNode @ pending, insert currentNode visited),
       (h, currentNode # pending, visited))
    \<in> inv_image (less_than <*lex*> less_than)
    (\<lambda>(h, pending, visited). (card ({..<length h} - visited), length pending))"
    by simp
qed

declare visits.simps [simp del]

declare walk.simps [simp del]

text \<open>Calling a visitor on a list of nodes in turn, up to its first exception; and a
  visitor that always returns, given by the function from state to state it computes.\<close>

fun run_visitor :: "(nat \<Rightarrow> 's \<Rightarrow> 's outcome) \<Rightarrow> nat list \<Rightarrow> 's \<Rightarrow> 's outcome" where
  "run_visitor visitor [] s = Returned s"
| "run_visitor visitor (a # as) s =
     (case visitor a s of Thrown s' \<Rightarrow> Thrown s' | Returned s' \<Rightarrow> run_visitor visitor as s')"

definition returning :: "(nat \<Rightarrow> 's \<Rightarrow> 's) \<Rightarrow> nat \<Rightarrow> 's \<Rightarrow> 's outcome" where
  "returning f a s = Returned (f a s)"

text \<open>
  A structural edge leads from an object to a node held by one of its properties other
  than \<open>parent\<close>, directly or as an element of an array. A node is reachable from the
  root when a chain of structural edges leads to it.
\<close>

definition structural_edge :: "heap \<Rightarrow> (nat \<times> nat) set" where
  "structural_edge h =
     {(a, b). a < length h \<and> is_node_at h b \<and>
        (\<exists>key child. (key, child) \<in> set (h ! a) \<and> key \<noteq> ''parent'' \<and>
           (child = HRef b \<or> (\<exists>items. child = HArr items \<and> HRef b \<in> set items)))}"

definition reachable :: "heap \<Rightarrow> nat \<Rightarrow> nat set" where
  "reachable h root = (structural_edge h)\<^sup>* `` {root}"

subsection \<open>Sample graph\<close>

text \<open>Node 0 holds node 1 under two keys and node 2 in an array; node 1 points back to
  node 0 (a cycle) and node 2 again to node 1; node 3 is held only as a \<open>parent\<close>; object
  4 has no \<open>type\<close>.\<close>

definition sample_heap :: heap where
  "sample_heap =
     [[(''type'', HPrim), (''parent'', HRef 3), (''left'', HRef 1), (''right'', HRef 1),
       (''items'', HArr [HRef 2, HPrim]), (''loc'', HRef 4)],
      [(''type'', HPrim), (''parent'', HRef 0), (''next'', HRef 0)],
      [(''type'', HPrim), (''parent'', HRef 0), (''alias'', HRef 1)],
      [(''type'', HPrim)],
      [(''start'', HPrim)]]"

text \<open>A visitor that records the node it is called on, and one that records the node
  and then throws at node 1.\<close>

definition log_visit :: "nat \<Rightarrow> nat list \<Rightarrow> nat list" where
  "log_visit a seen = seen @ [a]"

definition throw_on_1 :: "nat \<Rightarrow> nat list \<Rightarrow> nat list outcome" where
  "throw_on_1 a seen = (if a = 1 then Thrown (seen @ [a]) else Returned (seen @ [a]))"

section \<open>Properties of the layer-boundary passthrough detector\<close>

lemma unwind_type:
  "unwind ob = Some r \<Longrightarrow> \<exists>t. getp r ''type'' = Some t"
  by (induction ob rule: unwind.induct) (subst (asm) unwind.simps, auto split: option.splits if_splits)

lemma identifier_name_alt:
  "identifier_name v =
     (case getp v ''type'' of
        None \<Rightarrow> None
      | Some t \<Rightarrow> if t = JStr ''Identifier''
                 then (case getp v ''name'' of Some (JStr s) \<Rightarrow> Some s | _ \<Rightarrow> None)
                 else None)"
  by (simp add: identifier_name_def is_node_def split: option.splits)

lemma isResponseDataAccess_root:
  "isResponseDataAccess n =
     (case data_access_root n of None \<Rightarrow> False | Some s \<Rightarrow> responseName (toLowerCase s))"
proof (cases "getp n ''property''")
  case None
  then show ?thesis
    by (simp add: isResponseDataAccess_def isResponseDataAccess_body_def data_access_root_def)
next
  case (Some p)
  note p = this
  show ?thesis
  proof (cases "identifier_name p = Some ''data''")
    case False
    then show ?thesis using p
      by (simp add: isResponseDataAccess_def isResponseDataAccess_body_def data_access_root_def
          identifier_name_alt split: option.splits jv.splits if_splits)
  next
    case True
    then have pt: "getp p ''type'' = Some (JStr ''Identifier'')" "getp p ''name'' = Some (JStr ''data'')"
      by (simp_all add: identifier_name_alt split: option.splits jv.splits if_splits)
    show ?thesis
    proof (cases "getp n ''object''")
      case None
      then show ?thesis using p pt True 
        by (simp add: isResponseDataAccess_def isResponseDataAccess_body_def data_access_root_def)
    next
      case (Some ob)
      note ob = this
      show ?thesis
      proof (cases "unwind ob")
        case None
        then show ?thesis using p pt True ob
          by (simp add: isResponseDataAccess_def isResponseDataAccess_body_def data_access_root_def)
      next
        case (Some r)
        then obtain t where t: "getp r ''type'' = Some t" using unwind_type by blast
        show ?thesis using p pt True ob Some t
          by (simp add: isResponseDataAccess_def isResponseDataAccess_body_def data_access_root_def
              identifier_name_alt split: option.splits jv.splits)
      qed
    qed
  qed
qed

lemma res_in_response: "sublist ''res'' ''response''"
  by (simp add: sublist_code)

lemma res_in_result: "sublist ''res'' ''result''"
  by (simp add: sublist_code)

lemma responseName_iff: "responseName n = (str_includes n ''res'' \<or> n = ''r'')"
  unfolding responseName_def str_includes_def
  using res_in_response res_in_result sublist_order.order.trans by blast

lemma isResponseDataAccess_passthrough:
  "isResponseDataAccess m =
     (case data_access_root m of None \<Rightarrow> False | Some s \<Rightarrow> contains_res_or_r s)"
  by (simp add: isResponseDataAccess_root responseName_iff contains_res_or_r_def Let_def split: option.splits)

lemma isDirectResponseDataReturn_passthrough:
  "isDirectResponseDataReturn r = passthrough contains_res_or_r r"
proof (cases "getp r ''argument''")
  case None
  then show ?thesis
    by (simp add: isDirectResponseDataReturn_def isDirectResponseDataReturn_body_def
        passthrough_def returned_member_def)
next
  case (Some a)
  note a = this
  show ?thesis
  proof (cases "getp a ''type''")
    case None
    then have "\<not> truthy a" by (cases a) simp_all
    then show ?thesis using a None
      by (simp add: isDirectResponseDataReturn_def isDirectResponseDataReturn_body_def
          passthrough_def returned_member_def is_node_def)
  next
    case (Some t)
    note t = this
    have tr: "\<And>s. t = JStr s \<Longrightarrow> truthy a" using t by (cases a) (auto split: if_splits)
    show ?thesis
    proof (cases "t = JStr ''MemberExpression''")
      case True
      then show ?thesis using a t tr
        by (simp add: isDirectResponseDataReturn_def isDirectResponseDataReturn_body_def
            passthrough_def returned_member_def is_node_def isResponseDataAccess_passthrough)
    next
      case False
      note nm = this
      show ?thesis
      proof (cases "t = JStr ''ChainExpression''")
        case True
        then show ?thesis using a t tr nm
          by (simp add: isDirectResponseDataReturn_def isDirectResponseDataReturn_body_def
              passthrough_def returned_member_def is_node_def isResponseDataAccess_passthrough
              split: option.splits Option.bind_splits)
      next
        case False
        then show ?thesis using a t nm
          by (simp add: isDirectResponseDataReturn_def isDirectResponseDataReturn_body_def
              passthrough_def returned_member_def is_node_def)
      qed
    qed
  qed
qed

lemma dispatch_return:
  "dispatch [''ReturnStatement'' \<mapsto> ReturnStatement_listener] n =
     (if is_node ''ReturnStatement'' n \<and> passthrough contains_res_or_r n
      then [directResponseDataReturn n] else [])"
  unfolding dispatch_def ReturnStatement_listener_def is_node_def directResponseDataReturn_def
    isDirectResponseDataReturn_passthrough
  by (simp split: option.splits jv.splits)

lemmas sample_defs = return_stmt_def member_def ident_def
lemmas str_defs = str_includes_def sublist_code toLowerCase_def lower_char_def

lemma service_path_example: "matchesServicePath ''src/services/user.ts''"
  by (simp add: matchesServicePath_def normalizePath_def str_defs)

lemma dispatch_empty: "dispatch Map.empty n = []"
  by (simp add: dispatch_def split: option.splits jv.splits)

text \<open>
  Claim C6. For every file whose path, after normalizing backslashes to forward slashes,
  does not contain the service-layer marker segment \<open>src/services/\<close>, the passthrough
  detector emits no diagnostic, whatever nodes the file contains.
\<close>

theorem path_scoping:
  assumes "\<not> (\<exists>pre post. normalizePath filename = pre @ ''src/services/'' @ post)"
  shows "noResponseDataReturn filename ns = []"
proof -
  from assms have "\<not> matchesServicePath filename"
    by (simp add: matchesServicePath_def str_includes_def sublist_def)
  then show ?thesis
    by (simp add: noResponseDataReturn_def noResponseDataReturn_create_def run_listeners_def
        dispatch_empty)
qed

theorem path_scoping_witness:
  "\<not> (\<exists>pre post. normalizePath ''src/components/api.ts'' = pre @ ''src/services/'' @ post) \<and>
   noResponseDataReturn ''src/components/api.ts''
     [return_stmt (member (ident ''response'') (ident ''data''))] = []"
proof -
  have "\<not> sublist ''src/services/'' (normalizePath ''src/components/api.ts'')"
    by (simp add: normalizePath_def sublist_code)
  then have h: "\<not> (\<exists>pre post. normalizePath ''src/components/api.ts'' = pre @ ''src/services/'' @ post)"
    by (simp add: sublist_def)
  show ?thesis using h path_scoping [OF h] by simp
qed

text \<open>
  Claim C7, as the code has it. In a service-layer file the detector reports exactly the
  return statements whose argument is, directly or inside a \<open>ChainExpression\<close>, a
  member access with property identifier \<open>data\<close> whose root identifier has a lower-cased
  name that contains \<open>res\<close> or equals \<open>r\<close>. (The names \<open>response\<close> and \<open>result\<close>
  contain \<open>res\<close>; so do \<open>address\<close> and \<open>preset\<close>.)
\<close>

theorem passthrough_flagged:
  assumes "matchesServicePath filename"
  shows "noResponseDataReturn filename ns =
           map directResponseDataReturn
             (filter (\<lambda>n. is_node ''ReturnStatement'' n \<and> passthrough contains_res_or_r n) ns)"
  using assms unfolding noResponseDataReturn_def noResponseDataReturn_create_def run_listeners_def
  by (induction ns) (simp_all add: dispatch_return)

theorem passthrough_flagged_witness:
  "matchesServicePath ''src/services/user.ts'' \<and>
   noResponseDataReturn ''src/services/user.ts''
     [return_stmt (member (ident ''Response'') (ident ''data'')), return_stmt (ident ''x'')]
   = [directResponseDataReturn (return_stmt (member (ident ''Response'') (ident ''data'')))]"
proof -
  have h: "matchesServicePath ''src/services/user.ts''" by (rule service_path_example)
  show ?thesis
    using h passthrough_flagged [OF h,
        of "[return_stmt (member (ident ''Response'') (ident ''data'')), return_stmt (ident ''x'')]"]
    by (simp add: is_node_def passthrough_def returned_member_def data_access_root_def
        identifier_name_def unwind.simps contains_res_or_r_def sample_defs str_defs)
qed

text \<open>
  The claim as stated restricts the root name to \<open>response\<close>, \<open>res\<close>, \<open>r\<close> or a name
  containing \<open>result\<close>. The statement \<^verbatim>\<open>return address.data\<close> in a service file is reported
  although its root name is none of these.
\<close>

theorem passthrough_claimed_counterexample:
  "noResponseDataReturn ''src/services/user.ts''
       [return_stmt (member (ident ''address'') (ident ''data''))]
     = [directResponseDataReturn (return_stmt (member (ident ''address'') (ident ''data'')))]
   \<and> \<not> passthrough claimed_response_name
         (return_stmt (member (ident ''address'') (ident ''data'')))"
  by (simp add: noResponseDataReturn_def noResponseDataReturn_create_def run_listeners_def
        dispatch_def ReturnStatement_listener_def directResponseDataReturn_def
        isDirectResponseDataReturn_def isDirectResponseDataReturn_body_def
        isResponseDataAccess_def isResponseDataAccess_body_def unwind.simps responseName_def
        service_path_example sample_defs str_defs
        passthrough_def returned_member_def data_access_root_def identifier_name_def is_node_def
        claimed_response_name_def)

section \<open>Properties of the empty-handler detector\<close>

subsection \<open>The usage check is lexical occurrence\<close>

lemma occurs_JObj:
  "occurs p (JObj fs) =
     (is_named_identifier p (JObj fs)
      \<or> (\<exists>(k, v) \<in> set fs. \<not> skipped_key k \<and> (\<exists>c. child_node v c \<and> occurs p c)))"
  by (subst occurs.simps) auto

lemma occurs_JArr:
  "occurs p (JArr xs) = (\<exists>v \<in> set xs. \<exists>c. child_node v c \<and> occurs p c)"
  by (subst occurs.simps) auto

lemma occurs_prim [simp]:
  "\<not> occurs p JUndef" "\<not> occurs p JNull" "\<not> occurs p (JBool b)" "\<not> occurs p (JNum n)"
  "\<not> occurs p (JStr s)"
  by (auto elim: occurs.cases)

lemma child_node_simps:
  "child_node (JObj gs) c = (has_type_key (JObj gs) \<and> c = JObj gs)"
  "child_node (JArr items) c = (has_type_key c \<and> c \<in> set items)"
  "\<not> child_node JUndef c" "\<not> child_node JNull c" "\<not> child_node (JBool b) c"
  "\<not> child_node (JNum n) c" "\<not> child_node (JStr s) c"
  by (auto simp: child_node_def)

lemma traverse_occurs:
  "traverse p v isUsed = (isUsed \<or> occurs p v)"
  "traverse_fields p fs isUsed =
     (isUsed \<or> (\<exists>(k, v) \<in> set fs. \<not> skipped_key k \<and> (\<exists>c. child_node v c \<and> occurs p c)))"
  "traverse_value p w isUsed = (isUsed \<or> (\<exists>c. child_node w c \<and> occurs p c))"
  "traverse_items p items isUsed = (isUsed \<or> (\<exists>c \<in> set items. has_type_key c \<and> occurs p c))"
proof (induction p v isUsed and p fs isUsed and p w isUsed and p items isUsed
      rule: traverse_traverse_fields_traverse_value_traverse_items.induct)
  case (1 paramName fs isUsed)
  then show ?case by (auto simp: occurs_JObj)
next
  case (2 paramName xs isUsed)
  then show ?case by (auto simp: occurs_JArr skipped_key_def)
next
  case (9 paramName k v fs isUsed)
  then show ?case by (auto)
next
  case (10 paramName items isUsed)
  then show ?case by (auto simp: child_node_simps)
next
  case (11 paramName gs isUsed)
  then show ?case by (auto simp: child_node_simps)
next
  case (18 paramName item items isUsed)
  then show ?case by auto
qed (simp_all add: child_node_simps)

lemma checkIfParamUsed_occurs: "checkIfParamUsed b p = occurs p b"
  by (simp add: checkIfParamUsed_def traverse_occurs)

lemma nonempty_block_not_empty:
  assumes "getp n ''body'' = Some b" "is_node ''BlockStatement'' b"
    "getp b ''body'' = Some (JArr stmts)" "stmts \<noteq> []"
  shows "\<not> isEffectivelyEmpty n"
proof -
  from assms(2) have "truthy b" by (cases b) (auto simp: is_node_def split: if_splits)
  with assms show ?thesis
    by (simp add: isEffectivelyEmpty_def isEffectivelyEmpty_body_def is_node_def)
qed

lemma identifier_name_Some:
  assumes "identifier_name prm = Some nm"
  shows "getp prm ''type'' = Some (JStr ''Identifier'')" "getp prm ''name'' = Some (JStr nm)"
    "truthy prm"
proof -
  from assms show t: "getp prm ''type'' = Some (JStr ''Identifier'')"
    by (simp add: identifier_name_def is_node_def split: if_splits)
  from assms show "getp prm ''name'' = Some (JStr nm)"
    by (simp add: identifier_name_def split: if_splits option.splits jv.splits)
  from t show "truthy prm" by (cases prm) (auto split: if_splits)
qed

lemma unusedParam_check_identifier:
  assumes "getp n ''body'' = Some b" "getp n ''param'' = Some prm"
    "identifier_name prm = Some nm"
  shows "unusedParam_check n =
           Some (if occurs (JStr nm) b then [] else [unusedParam prm (JStr nm)])"
  using assms(1,2) identifier_name_Some [OF assms(3)]
  by (simp add: unusedParam_check_def checkIfParamUsed_occurs)

lemma CatchClause_nonempty:
  assumes "getp n ''body'' = Some b" "is_node ''BlockStatement'' b"
    "getp b ''body'' = Some (JArr stmts)" "stmts \<noteq> []"
    "\<not> hasIntentionalIgnoreComment n sc"
    "getp n ''param'' = Some prm" "identifier_name prm = Some nm"
  shows "CatchClause_listener sc n =
           (if occurs (JStr nm) b then [] else [unusedParam prm (JStr nm)])"
  using nonempty_block_not_empty [OF assms(1-4)] assms(5)
    unusedParam_check_identifier [OF assms(1) assms(6,7)]
  by (simp add: CatchClause_listener_def)

lemmas tree_defs = catch_clause_def block_def expr_stmt_def call_def str_literal_def
  member_def ident_def return_stmt_def

lemmas usage_defs = checkIfParamUsed_def is_named_identifier_def skipped_key_def

lemma no_comments_not_ignored:
  "\<not> hasIntentionalIgnoreComment n plain_source"
  by (simp add: hasIntentionalIgnoreComment_def hasIntentionalIgnoreComment_body_def
      plain_source_def split: option.splits Option.bind_splits)

lemma plain_source_token: "getFirstToken plain_source n = Some (0, 5)"
  by (simp add: plain_source_def)

text \<open>A comment \<^verbatim>\<open>// Intentionally  ignored\<close> inside the clause's range is recognised;
  the same comment outside the range is not. A no-break space or an em space between the
  two words is white space as well.\<close>

lemma ignore_comment_example:
  "hasIntentionalIgnoreComment (catch_clause (ident ''e'') (block []) (10, 50))
     \<lparr>getAllComments = Some [\<lparr>comment_value = units '' Intentionally  ignored'',
                               comment_range = Some (22, 47)\<rparr>],
      getFirstToken = (\<lambda>n. None)\<rparr>
   \<and> \<not> hasIntentionalIgnoreComment (catch_clause (ident ''e'') (block []) (10, 50))
     \<lparr>getAllComments = Some [\<lparr>comment_value = units '' Intentionally  ignored'',
                               comment_range = Some (52, 77)\<rparr>],
      getFirstToken = (\<lambda>n. None)\<rparr>"
  by (simp add: hasIntentionalIgnoreComment_def hasIntentionalIgnoreComment_body_def
      inCatchBlock_def num_ge_def num_le_def ignorePatterns_def lit_def units_def
      lower_unit_def is_space_def catch_clause_def block_def)

lemma ignore_comment_unicode_space:
  "hasIntentionalIgnoreComment (catch_clause (ident ''e'') (block []) (10, 50))
     \<lparr>getAllComments =
        Some [\<lparr>comment_value = units ''intentionally'' @ [0xA0, 0x2003] @ units ''ignored'',
               comment_range = Some (22, 47)\<rparr>],
      getFirstToken = (\<lambda>n. None)\<rparr>"
  by (simp add: hasIntentionalIgnoreComment_def hasIntentionalIgnoreComment_body_def
      inCatchBlock_def num_ge_def num_le_def ignorePatterns_def lit_def units_def
      lower_unit_def is_space_def catch_clause_def block_def)

text \<open>
  Claim C5. For a catch clause whose block is non-empty, that has no ignore-intent
  comment, and whose parameter is an identifier that occurs nowhere in the block, the
  listener reports exactly one diagnostic: \<open>unusedParam\<close>, on the parameter, with the
  parameter's name as its data and without a fix.
\<close>

theorem unused_param_only:
  assumes "getp n ''body'' = Some b" "is_node ''BlockStatement'' b"
    "getp b ''body'' = Some (JArr stmts)" "stmts \<noteq> []"
    "\<not> hasIntentionalIgnoreComment n sc"
    "getp n ''param'' = Some prm" "identifier_name prm = Some nm"
    "\<not> occurs (JStr nm) b"
  shows "CatchClause_listener sc n =
           [\<lparr>messageId = ''unusedParam'', node = prm, data = [(''paramName'', JStr nm)],
             fix_edit = None\<rparr>]"
  using CatchClause_nonempty [OF assms(1-7)] assms(8) by (simp add: unusedParam_def)

theorem unused_param_only_witness:
  "CatchClause_listener plain_source
     (catch_clause (ident ''error'')
        (block [expr_stmt (call (member (ident ''console'') (ident ''log'')) [str_literal ''x''])])
        (0, 36))
   = [\<lparr>messageId = ''unusedParam'', node = ident ''error'',
        data = [(''paramName'', JStr ''error'')], fix_edit = None\<rparr>]"
proof -
  let ?stmts = "[expr_stmt (call (member (ident ''console'') (ident ''log'')) [str_literal ''x''])]"
  let ?n = "catch_clause (ident ''error'') (block ?stmts) (0, 36)"
  have "\<not> checkIfParamUsed (block ?stmts) (JStr ''error'')"
    by (simp add: usage_defs tree_defs)
  then have h8: "\<not> occurs (JStr ''error'') (block ?stmts)"
    by (simp add: checkIfParamUsed_occurs)
  have h1: "getp ?n ''body'' = Some (block ?stmts)" by (simp add: catch_clause_def)
  have h2: "is_node ''BlockStatement'' (block ?stmts)" by (simp add: is_node_def block_def)
  have h3: "getp (block ?stmts) ''body'' = Some (JArr ?stmts)" by (simp add: block_def)
  have h4: "?stmts \<noteq> []" by simp
  have h5: "\<not> hasIntentionalIgnoreComment ?n plain_source" by (rule no_comments_not_ignored)
  have h6: "getp ?n ''param'' = Some (ident ''error'')" by (simp add: catch_clause_def)
  have h7: "identifier_name (ident ''error'') = Some ''error''"
    by (simp add: identifier_name_def is_node_def ident_def)
  show ?thesis by (rule unused_param_only [OF h1 h2 h3 h4 h5 h6 h7 h8])
qed

text \<open>
  Claim C10. \<^verbatim>\<open>checkIfParamUsed\<close> is true exactly when an identifier node with the
  parameter's name occurs in the block through properties other than \<open>parent\<close>, \<open>range\<close>
  and \<open>loc\<close>, whatever the role of that identifier (a member-access property, an object
  key); and such an occurrence suppresses the unused-parameter diagnostic. The witness is
  \<^verbatim>\<open>catch (error) { log(data.error); }\<close>.
\<close>

theorem param_usage_lexical:
  "checkIfParamUsed b paramName = occurs paramName b
   \<and> (getp n ''body'' = Some b \<and> is_node ''BlockStatement'' b
        \<and> getp b ''body'' = Some (JArr stmts) \<and> stmts \<noteq> []
        \<and> \<not> hasIntentionalIgnoreComment n sc
        \<and> getp n ''param'' = Some prm \<and> identifier_name prm = Some nm
        \<and> occurs (JStr nm) b
      \<longrightarrow> CatchClause_listener sc n = [])"
  using CatchClause_nonempty [of n b stmts sc prm nm]
  by (simp add: checkIfParamUsed_occurs)

theorem param_usage_lexical_witness:
  "checkIfParamUsed
     (block [expr_stmt (call (ident ''log'') [member (ident ''data'') (ident ''error'')])])
     (JStr ''error'')
   \<and> CatchClause_listener plain_source
       (catch_clause (ident ''error'')
          (block [expr_stmt (call (ident ''log'') [member (ident ''data'') (ident ''error'')])])
          (0, 36)) = []"
proof -
  let ?stmts = "[expr_stmt (call (ident ''log'') [member (ident ''data'') (ident ''error'')])]"
  let ?n = "catch_clause (ident ''error'') (block ?stmts) (0, 36)"
  have used: "checkIfParamUsed (block ?stmts) (JStr ''error'')"
    by (simp add: usage_defs tree_defs)
  have pre: "getp ?n ''body'' = Some (block ?stmts) \<and> is_node ''BlockStatement'' (block ?stmts)
        \<and> getp (block ?stmts) ''body'' = Some (JArr ?stmts) \<and> ?stmts \<noteq> []
        \<and> \<not> hasIntentionalIgnoreComment ?n plain_source
        \<and> getp ?n ''param'' = Some (ident ''error'') \<and> identifier_name (ident ''error'') = Some ''error''"
    by (simp add: no_comments_not_ignored tree_defs is_node_def identifier_name_def)
  from param_usage_lexical [of "block ?stmts" "JStr ''error''" ?n ?stmts plain_source
      "ident ''error''" "''error''"] used pre
  show ?thesis by blast
qed

text \<open>An identifier of that name under \<open>parent\<close>, \<open>range\<close> or \<open>loc\<close> is not found.\<close>

lemma parent_not_searched:
  "\<not> checkIfParamUsed
       (JObj [(''type'', JStr ''BlockStatement''), (''body'', JArr [expr_stmt (ident ''x'')]),
              (''parent'', ident ''error''), (''range'', JArr [ident ''error'']),
              (''loc'', ident ''error'')])
       (JStr ''error'')"
  by (simp add: usage_defs tree_defs)

text \<open>
  Claim C1, evaluated on the code. For the text \<^verbatim>\<open>catch (e) {}\<close> the listener reports
  \<open>emptyCatch\<close> with the fix that inserts \<^verbatim>\<open> // intentionally ignored\<close> at the end of
  the \<^verbatim>\<open>catch\<close> keyword. The fixed text is \<^verbatim>\<open>catch // intentionally ignored (e) {}\<close>:
  no line break follows the inserted \<^verbatim>\<open>//\<close>, so the parameter and the block are inside
  the line comment and the text is no longer a catch clause.
\<close>

theorem emptyCatch_fix_text:
  "CatchClause_listener plain_source (catch_clause (ident ''e'') (block []) (0, 12))
     = [\<lparr>messageId = ''emptyCatch'', node = catch_clause (ident ''e'') (block []) (0, 12),
          data = [], fix_edit = Some ((5, 5), '' // intentionally ignored'')\<rparr>]
   \<and> applyFix ''catch (e) {}'' ((5, 5), '' // intentionally ignored'')
       = ''catch // intentionally ignored (e) {}''
   \<and> CHR 0x0A \<notin> set (drop 6 ''catch // intentionally ignored (e) {}'')"
  by (simp add: CatchClause_listener_def isEffectivelyEmpty_def isEffectivelyEmpty_body_def
      no_comments_not_ignored emptyCatch_def plain_source_token insertTextAfter_def applyFix_def
      catch_clause_def block_def)

section \<open>Properties of the duplicate-definition detector\<close>

lemma isReactComponent_other_type:
  assumes "getp n ''type'' = Some t" "t \<noteq> JStr ''FunctionDeclaration''"
    "t \<noteq> JStr ''VariableDeclarator''" "t \<noteq> JStr ''ClassDeclaration''"
  shows "\<not> isReactComponent n"
  using assms by (simp add: isReactComponent_def isReactComponent_body_def)

lemma compound_child_not_assignment:
  assumes "\<not> is_node ''AssignmentExpression'' n"
  shows "compound_child n = None"
  using assms by (simp add: compound_child_def split: option.splits prod.splits)

lemma state_eq: "(st :: rule_state) = \<lparr>components = components st, compoundChildren = compoundChildren st\<rparr>"
  by simp

lemma is_node_getp: "getp n ''type'' = Some (JStr t) \<Longrightarrow> is_node t' n = (t' = t)"
  by (auto simp: is_node_def)

lemma assignment_step:
  assumes "getp n ''type'' = Some (JStr ''AssignmentExpression'')"
  shows "AssignmentExpression_listener st n = step_state st n"
proof -
  have nr: "\<not> isReactComponent n"
    by (rule isReactComponent_other_type [OF assms]) simp_all
  then have d: "def_entry n = []" by (simp add: def_entry_def definition_name_def)
  have an: "is_node ''AssignmentExpression'' n" using assms by (simp add: is_node_def)
  have "AssignmentExpression_body st n =
          Some (st\<lparr>compoundChildren := compoundChildren st @ child_entry n\<rparr>)
        \<or> (AssignmentExpression_body st n = None \<and> child_entry n = [])"
    unfolding AssignmentExpression_body_def child_entry_def compound_child_def is_node_def
    using assms
    by (cases "getp n ''left''"; cases "getp n ''right''";
        simp split: option.splits Option.bind_splits prod.splits)
  then show ?thesis
    by (auto simp: AssignmentExpression_listener_def step_state_def d)
qed

lemma child_entry_other:
  assumes "getp n ''type'' = Some (JStr t)" "t \<noteq> ''AssignmentExpression''"
  shows "child_entry n = []"
  using assms by (simp add: child_entry_def compound_child_not_assignment is_node_def)

lemma push_component_step:
  "push_component st nm n =
     \<lparr>components = components st @ map mk_info [(nm, n)], compoundChildren = compoundChildren st @ []\<rparr>"
  by (simp add: push_component_def mk_info_def)

lemma function_step:
  assumes "getp n ''type'' = Some (JStr ''FunctionDeclaration'')"
  shows "FunctionDeclaration_listener st n = step_state st n"
proof -
  have c: "child_entry n = []" by (rule child_entry_other [OF assms]) simp
  have d: "def_entry n =
             (if isReactComponent n
              then (case id_name_or_anonymous n of None \<Rightarrow> [] | Some nm \<Rightarrow> [(nm, n)]) else [])"
    using assms by (simp add: def_entry_def definition_name_def is_node_def)
  show ?thesis
    by (simp add: FunctionDeclaration_listener_def FunctionDeclaration_body_def step_state_def
        c d push_component_step split: option.splits)
qed

lemma class_step:
  assumes "getp n ''type'' = Some (JStr ''ClassDeclaration'')"
  shows "ClassDeclaration_listener st n = step_state st n"
proof -
  have c: "child_entry n = []" by (rule child_entry_other [OF assms]) simp
  have d: "def_entry n =
             (if isReactComponent n
              then (case id_name_or_anonymous n of None \<Rightarrow> [] | Some nm \<Rightarrow> [(nm, n)]) else [])"
    using assms by (simp add: def_entry_def definition_name_def is_node_def)
  show ?thesis
    by (simp add: ClassDeclaration_listener_def ClassDeclaration_body_def step_state_def
        c d push_component_step split: option.splits)
qed

lemma getp_None_iff: "getp v k = None \<longleftrightarrow> v = JUndef \<or> v = JNull"
  by (cases v) simp_all

lemma variable_name:
  assumes "getp n ''type'' = Some (JStr ''VariableDeclarator'')" "isReactComponent n"
  shows "definition_name n =
           do { idv \<leftarrow> getp n ''id'';
                it \<leftarrow> getp idv ''type'';
                (if it = JStr ''Identifier'' then getp idv ''name'' else Some (JStr ''anonymous'')) }"
proof (cases "getp n ''id''")
  case None
  then show ?thesis using assms by (simp add: definition_name_def is_node_def)
next
  case (Some idv)
  show ?thesis
  proof (cases "getp idv ''type''")
    case None
    then have "idv = JUndef \<or> idv = JNull" by (simp add: getp_None_iff)
    then show ?thesis using assms Some None
      by (auto simp add: definition_name_def is_node_def)
  next
    case (Some it)
    then have "idv \<noteq> JUndef" "idv \<noteq> JNull" by auto
    then show ?thesis using assms Some \<open>getp n ''id'' = Some idv\<close>
      by (simp add: definition_name_def is_node_def)
  qed
qed

lemma variable_step:
  assumes "getp n ''type'' = Some (JStr ''VariableDeclarator'')"
  shows "VariableDeclarator_listener st n = step_state st n"
proof -
  have c: "child_entry n = []" by (rule child_entry_other [OF assms]) simp
  show ?thesis
  proof (cases "isReactComponent n")
    case False
    then show ?thesis
      by (simp add: VariableDeclarator_listener_def VariableDeclarator_body_def step_state_def
          c def_entry_def definition_name_def)
  next
    case True
    show ?thesis
      unfolding VariableDeclarator_listener_def VariableDeclarator_body_def step_state_def
        c def_entry_def variable_name [OF assms True]
      using True
      by (simp add: push_component_step split: option.splits Option.bind_splits)
  qed
qed

lemma other_step:
  assumes "getp n ''type'' = Some t" "t \<noteq> JStr ''AssignmentExpression''"
    "t \<noteq> JStr ''FunctionDeclaration''"
    "t \<noteq> JStr ''VariableDeclarator''" "t \<noteq> JStr ''ClassDeclaration''"
  shows "step_state st n = st"
proof -
  have "\<not> isReactComponent n" by (rule isReactComponent_other_type [OF assms(1,3,4,5)])
  then have d: "def_entry n = []" by (simp add: def_entry_def definition_name_def)
  have "\<not> is_node ''AssignmentExpression'' n" using assms(1,2) by (simp add: is_node_def)
  then have "child_entry n = []" by (simp add: child_entry_def compound_child_not_assignment)
  with d show ?thesis by (simp add: step_state_def)
qed

lemma untyped_step:
  assumes "getp n ''type'' = None"
  shows "step_state st n = st"
proof -
  have "\<not> isReactComponent n" using assms
    by (simp add: isReactComponent_def isReactComponent_body_def)
  then have d: "def_entry n = []" by (simp add: def_entry_def definition_name_def)
  have "\<not> is_node ''AssignmentExpression'' n" using assms by (simp add: is_node_def)
  then have "child_entry n = []" by (simp add: child_entry_def compound_child_not_assignment)
  with d show ?thesis by (simp add: step_state_def)
qed

lemma component_listener_step: "component_listener st n = step_state st n"
proof (cases "getp n ''type''")
  case None
  then show ?thesis by (simp add: component_listener_def untyped_step)
next
  case (Some t)
  show ?thesis
  proof (cases "t = JStr ''AssignmentExpression'' \<or> t = JStr ''FunctionDeclaration''
      \<or> t = JStr ''VariableDeclarator'' \<or> t = JStr ''ClassDeclaration''")
    case True
    then show ?thesis using Some
      by (auto simp: component_listener_def assignment_step function_step variable_step class_step)
  next
    case False
    then have "step_state st n = st" using other_step [OF Some] by blast
    moreover have "component_listener st n = st" using Some False
      by (cases t) (simp_all add: component_listener_def)
    ultimately show ?thesis by simp
  qed
qed

lemma file_definitions_Cons: "file_definitions (n # ns) = def_entry n @ file_definitions ns"
  by (simp add: file_definitions_def def_entry_def List.map_filter_simps split: option.splits)

lemma file_compound_children_Cons:
  "file_compound_children (n # ns) = child_entry n @ file_compound_children ns"
  by (simp add: file_compound_children_def child_entry_def List.map_filter_simps
      split: option.splits)

lemma foldl_component_listener:
  "foldl component_listener st ns =
     \<lparr>components = components st @ map mk_info (file_definitions ns),
      compoundChildren = compoundChildren st @ file_compound_children ns\<rparr>"
proof (induction ns arbitrary: st)
  case Nil
  then show ?case
    by (simp add: file_definitions_def file_compound_children_def List.map_filter_simps)
next
  case (Cons n ns)
  have "foldl component_listener st (n # ns) = foldl component_listener (step_state st n) ns"
    by (simp only: foldl_Cons component_listener_step)
  also have "\<dots> = \<lparr>components = components (step_state st n) @ map mk_info (file_definitions ns),
      compoundChildren = compoundChildren (step_state st n) @ file_compound_children ns\<rparr>"
    by (rule Cons.IH)
  finally show ?case
    by (simp add: step_state_def file_definitions_Cons file_compound_children_Cons)
qed

lemma filter_marked:
  "filter (\<lambda>c. \<not> isCompoundChild c) (map (mark_compound ch) (map mk_info ds)) =
     map mk_info (filter (\<lambda>d. \<not> list_ex (strict_eq (fst d)) ch) ds)"
  by (induction ds) (simp_all add: mark_compound_def mk_info_def)

lemma nth_mk_info: "i < length ds \<Longrightarrow> component_node (map mk_info ds ! i) = snd (ds ! i)"
  by (simp add: mk_info_def)

lemma names_mk_info: "map (element_string \<circ> name) (map mk_info ds) = map (element_string \<circ> fst) ds"
  by (simp add: mk_info_def)

lemmas file_defs = Card_def CardHeader_def Card_Header_assignment_def function_declaration_def
  assignment_def jsx_element_def block_def return_stmt_def member_def ident_def

lemma sample_names:
  "definition_name Card = Some (JStr ''Card'')"
  "definition_name CardHeader = Some (JStr ''CardHeader'')"
  "definition_name Card_Header_assignment = None"
  by (simp_all add: definition_name_def isReactComponent_def isReactComponent_body_def
      returnsJSX_def returnsJSX_body_def isJSXNode_def id_name_or_anonymous_def is_node_def
      file_defs)

lemma sample_children:
  "compound_child Card = None"
  "compound_child CardHeader = None"
  "compound_child Card_Header_assignment = Some (JStr ''CardHeader'')"
  by (simp_all add: compound_child_def is_node_def file_defs)

lemma sample_remaining:
  "remaining_definitions [Card, CardHeader, Card_Header_assignment] = [(JStr ''Card'', Card)]"
  "remaining_definitions [Card_Header_assignment, Card, CardHeader] = [(JStr ''Card'', Card)]"
  "remaining_definitions [Card, CardHeader] =
     [(JStr ''Card'', Card), (JStr ''CardHeader'', CardHeader)]"
  by (simp_all add: remaining_definitions_def file_definitions_def file_compound_children_def
      List.map_filter_simps sample_names sample_children)

text \<open>
  Claim C3. At the end of the file the definitions whose name is a compound child (the
  right-hand identifier of a property assignment anywhere in the file) are excluded; if
  more than one definition remains, exactly one diagnostic is reported, on the second
  remaining definition, with the number of remaining definitions and their names joined
  by \<^verbatim>\<open>", "\<close>; otherwise nothing is reported. For the file with \<open>Card\<close>, \<open>CardHeader\<close>
  and \<^verbatim>\<open>Card.Header = CardHeader\<close> (before or after the functions) nothing is reported;
  without the assignment one diagnostic on \<open>CardHeader\<close> with count 2.
\<close>

theorem duplicate_definitions:
  "oneComponentPerFile ns =
     (if length (remaining_definitions ns) > 1
      then [\<lparr>messageId = ''multipleComponents'',
              node = snd (remaining_definitions ns ! 1),
              data = [(''count'', JNum (int (length (remaining_definitions ns)))),
                      (''componentNames'',
                       JStr (join_with '', ''
                               (map (element_string \<circ> fst) (remaining_definitions ns))))],
              fix_edit = None\<rparr>]
      else [])"
proof -
  have st: "foldl component_listener initial_state ns =
      \<lparr>components = map mk_info (file_definitions ns),
       compoundChildren = file_compound_children ns\<rparr>"
    by (simp add: foldl_component_listener initial_state_def)
  have rem: "filter (\<lambda>c. \<not> isCompoundChild c)
         (map (mark_compound (file_compound_children ns)) (map mk_info (file_definitions ns)))
       = map mk_info (remaining_definitions ns)"
    by (simp only: filter_marked remaining_definitions_def)
  show ?thesis
    unfolding oneComponentPerFile_def st Program_exit_def Let_def
    by (simp add: rem names_mk_info mk_info_def del: map_map)
qed

theorem duplicate_definitions_witness:
  "oneComponentPerFile [Card, CardHeader, Card_Header_assignment] = []
   \<and> oneComponentPerFile [Card_Header_assignment, Card, CardHeader] = []
   \<and> oneComponentPerFile [Card, CardHeader] =
       [\<lparr>messageId = ''multipleComponents'', node = CardHeader,
         data = [(''count'', JNum 2), (''componentNames'', JStr ''Card, CardHeader'')],
         fix_edit = None\<rparr>]"
  using duplicate_definitions [of "[Card, CardHeader, Card_Header_assignment]"]
    duplicate_definitions [of "[Card_Header_assignment, Card, CardHeader]"]
    duplicate_definitions [of "[Card, CardHeader]"]
  by (simp add: sample_remaining)

section \<open>Properties of the strategy selector and the fix synthesizer\<close>

lemma updateImports_NO_UPDATE:
  "importUpdateStrategy s = NO_UPDATE \<Longrightarrow> updateImports s imp prog = ([], [])"
  by (simp add: updateImports_def updateImports_body_def)

lemma updateImports_ADD_TO_NAMED:
  assumes "importUpdateStrategy s = ADD_TO_NAMED"
    "getp imp ''range'' = Some r" "truthy r"
    "getp imp ''specifiers'' = Some (JArr specs)"
    "filter_throwing (is_type ''ImportSpecifier'') specs = Some named" "named \<noteq> []"
    "getp (last named) ''range'' = Some (JArr [a, b])"
  shows "updateImports s imp prog = ([((b, b), '', memo'')], [''memo''])"
proof -
  from assms(2,3) have "truthy imp" by (cases imp) (auto split: if_splits)
  with assms show ?thesis
    by (simp add: updateImports_def updateImports_body_def)
qed

lemmas import_defs = import_React_def import_useState_def import_declaration_def
  import_default_def import_named_def ranged_def program_def ident_def

lemma analyze_import_React:
  "analyzeReactImport (program [import_React]) =
     \<lparr>style = DEFAULT_ONLY, hasDefaultImport = True, hasNamedImports = False,
      hasMemoImport = False, importNode = import_React\<rparr>"
  by (simp add: analyzeReactImport_def analyzeReactImport_body_def import_defs)

lemma analyze_import_useState:
  "analyzeReactImport (program [import_useState]) =
     \<lparr>style = NAMED_ONLY, hasDefaultImport = False, hasNamedImports = True,
      hasMemoImport = False, importNode = import_useState\<rparr>"
  by (simp add: analyzeReactImport_def analyzeReactImport_body_def import_defs)

text \<open>
  Claim C4, as the code has it. \<^verbatim>\<open>selectMemoStrategy\<close> is a function of the analysis alone,
  given by a table over the memo flag and the five import styles. For a named-only import
  without \<open>memo\<close> the strategy is \<open>ADD_TO_NAMED\<close>, and \<^verbatim>\<open>updateImports\<close> appends
  \<^verbatim>\<open>, memo\<close> after the last named specifier. For a default-only import the strategy is
  \<open>NO_UPDATE\<close> with the reference \<open>React.memo\<close>, and \<^verbatim>\<open>updateImports\<close> makes no edit.
\<close>

theorem memo_strategy_table:
  "importUpdateStrategy (selectMemoStrategy a) =
     (if hasMemoImport a then NO_UPDATE
      else case style a of
             NAMESPACE \<Rightarrow> NO_UPDATE
           | DEFAULT_ONLY \<Rightarrow> NO_UPDATE
           | NAMED_ONLY \<Rightarrow> ADD_TO_NAMED
           | MIXED \<Rightarrow> ADD_TO_NAMED
           | NONE \<Rightarrow> CREATE_NEW_IMPORT)
   \<and> (style a = DEFAULT_ONLY \<and> \<not> hasMemoImport a \<longrightarrow>
        selectMemoStrategy a =
          \<lparr>memoReference = ''React.memo'', needsMemoImport = False,
           importUpdateStrategy = NO_UPDATE\<rparr>
        \<and> updateImports (selectMemoStrategy a) imp prog = ([], []))
   \<and> (style a = NAMED_ONLY \<and> \<not> hasMemoImport a \<longrightarrow>
        selectMemoStrategy a =
          \<lparr>memoReference = ''memo'', needsMemoImport = True,
           importUpdateStrategy = ADD_TO_NAMED\<rparr>
        \<and> (getp imp ''range'' = Some r \<and> truthy r
             \<and> getp imp ''specifiers'' = Some (JArr specs)
             \<and> filter_throwing (is_type ''ImportSpecifier'') specs = Some named
             \<and> named \<noteq> []
             \<and> getp (last named) ''range'' = Some (JArr [p, q])
            \<longrightarrow> updateImports (selectMemoStrategy a) imp prog
                  = ([((q, q), '', memo'')], [''memo''])))"
proof (intro conjI impI)
  show "importUpdateStrategy (selectMemoStrategy a) =
     (if hasMemoImport a then NO_UPDATE
      else case style a of
             NAMESPACE \<Rightarrow> NO_UPDATE
           | DEFAULT_ONLY \<Rightarrow> NO_UPDATE
           | NAMED_ONLY \<Rightarrow> ADD_TO_NAMED
           | MIXED \<Rightarrow> ADD_TO_NAMED
           | NONE \<Rightarrow> CREATE_NEW_IMPORT)"
    by (cases "style a") (simp_all add: selectMemoStrategy_def)
next
  assume h: "style a = DEFAULT_ONLY \<and> \<not> hasMemoImport a"
  then show s: "selectMemoStrategy a =
          \<lparr>memoReference = ''React.memo'', needsMemoImport = False,
           importUpdateStrategy = NO_UPDATE\<rparr>"
    by (simp add: selectMemoStrategy_def)
  show "updateImports (selectMemoStrategy a) imp prog = ([], [])"
    by (rule updateImports_NO_UPDATE) (simp add: s)
next
  assume h: "style a = NAMED_ONLY \<and> \<not> hasMemoImport a"
  then show s: "selectMemoStrategy a =
          \<lparr>memoReference = ''memo'', needsMemoImport = True,
           importUpdateStrategy = ADD_TO_NAMED\<rparr>"
    by (simp add: selectMemoStrategy_def)
  assume e: "getp imp ''range'' = Some r \<and> truthy r
             \<and> getp imp ''specifiers'' = Some (JArr specs)
             \<and> filter_throwing (is_type ''ImportSpecifier'') specs = Some named
             \<and> named \<noteq> []
             \<and> getp (last named) ''range'' = Some (JArr [p, q])"
  have "importUpdateStrategy (selectMemoStrategy a) = ADD_TO_NAMED" by (simp add: s)
  then show "updateImports (selectMemoStrategy a) imp prog = ([((q, q), '', memo'')], [''memo''])"
    using e updateImports_ADD_TO_NAMED by blast
qed

theorem memo_strategy_table_witness:
  "updateImports (selectMemoStrategy (analyzeReactImport (program [import_useState])))
       import_useState (program [import_useState])
     = ([((JNum 17, JNum 17), '', memo'')], [''memo''])
   \<and> updateImports (selectMemoStrategy (analyzeReactImport (program [import_React])))
       import_React (program [import_React]) = ([], [])"
proof -
  let ?named = "[ranged (import_named ''useState'') (9, 17)]"
  have n: "style (analyzeReactImport (program [import_useState])) = NAMED_ONLY
        \<and> \<not> hasMemoImport (analyzeReactImport (program [import_useState]))"
    by (simp add: analyze_import_useState)
  have d: "style (analyzeReactImport (program [import_React])) = DEFAULT_ONLY
        \<and> \<not> hasMemoImport (analyzeReactImport (program [import_React]))"
    by (simp add: analyze_import_React)
  have e: "getp import_useState ''range'' = Some (JArr [JNum 0, JNum 33])
        \<and> truthy (JArr [JNum 0, JNum 33])
        \<and> getp import_useState ''specifiers'' = Some (JArr ?named)
        \<and> filter_throwing (is_type ''ImportSpecifier'') ?named = Some ?named
        \<and> ?named \<noteq> []
        \<and> getp (last ?named) ''range'' = Some (JArr [JNum 9, JNum 17])"
    by (simp add: import_defs is_type_def)
  from memo_strategy_table [of "analyzeReactImport (program [import_useState])"
      import_useState "program [import_useState]" "JArr [JNum 0, JNum 33]" ?named ?named
      "JNum 9" "JNum 17"] n e
  have 1: "updateImports (selectMemoStrategy (analyzeReactImport (program [import_useState])))
       import_useState (program [import_useState])
     = ([((JNum 17, JNum 17), '', memo'')], [''memo''])"
    by blast
  from memo_strategy_table [of "analyzeReactImport (program [import_React])"
      import_React "program [import_React]"] d
  have 2: "updateImports (selectMemoStrategy (analyzeReactImport (program [import_React])))
       import_React (program [import_React]) = ([], [])"
    by blast
  from 1 2 show ?thesis by simp
qed

text \<open>
  The claim as stated has a named-import edit also when only a default import exists. For
  \<^verbatim>\<open>import React from 'react';\<close> the analysis is default-only and no edit is made.
\<close>

theorem default_only_counterexample:
  "style (analyzeReactImport (program [import_React])) = DEFAULT_ONLY
   \<and> hasDefaultImport (analyzeReactImport (program [import_React]))
   \<and> \<not> hasNamedImports (analyzeReactImport (program [import_React]))
   \<and> selectMemoStrategy (analyzeReactImport (program [import_React])) =
       \<lparr>memoReference = ''React.memo'', needsMemoImport = False,
        importUpdateStrategy = NO_UPDATE\<rparr>
   \<and> updateImports (selectMemoStrategy (analyzeReactImport (program [import_React])))
       (importNode (analyzeReactImport (program [import_React]))) (program [import_React])
     = ([], [])"
  by (simp add: analyze_import_React selectMemoStrategy_def updateImports_def
      updateImports_body_def)

lemma annotate_annotated_identifier:
  assumes "is_node ''Identifier'' p" "getp p ''typeAnnotation'' = Some ta" "truthy ta"
  shows "annotate_first_param (JArr (p # ps)) pt = Some None"
  using assms by (simp add: annotate_first_param_def is_node_def)

lemma positive_length_Cons: "positive (JNum (int (length (p # ps))))"
  by (simp add: positive_def)

lemma component_fixes_annotated:
  assumes "first_param c = Some p" "is_node ''Identifier'' p"
    "getp p ''typeAnnotation'' = Some ta" "truthy ta"
  shows "component_fixes c strategy = Some None"
proof (cases "is_node ''FunctionDeclaration'' c")
  case True
  with assms(1) obtain ps where ps: "getp c ''params'' = Some (JArr (p # ps))"
    by (auto simp: first_param_def split: option.splits jv.splits list.splits)
  have len: "getp (JArr (p # ps)) ''length'' = Some (JNum (int (length (p # ps))))" by simp
  from True have t: "getp c ''type'' = Some (JStr ''FunctionDeclaration'')"
    by (simp add: is_node_def)
  show ?thesis
    unfolding component_fixes_def
    using t ps positive_length_Cons [of p ps] annotate_annotated_identifier [OF assms(2-4), of ps]
    by simp
next
  case False
  with assms(1) have vd: "is_node ''VariableDeclarator'' c"
    by (auto simp: first_param_def split: if_splits)
  with assms(1) False obtain init ps where init: "getp c ''init'' = Some init"
    "is_node ''ArrowFunctionExpression'' init" "getp init ''params'' = Some (JArr (p # ps))"
    by (auto simp: first_param_def split: option.splits jv.splits list.splits if_splits)
  have len: "getp (JArr (p # ps)) ''length'' = Some (JNum (int (length (p # ps))))" by simp
  from vd have t: "getp c ''type'' = Some (JStr ''VariableDeclarator'')"
    by (simp add: is_node_def)
  from init(2) have it: "getp init ''type'' = Some (JStr ''ArrowFunctionExpression'')"
    by (simp add: is_node_def)
  then have tr: "truthy init" by (cases init) (auto split: if_splits)
  show ?thesis
    unfolding component_fixes_def
    using t init(1,3) it tr positive_length_Cons [of p ps]
      annotate_annotated_identifier [OF assms(2-4), of ps]
    by simp
qed

lemmas component_defs = function_declaration_def arrow_declarator_def annotated_ident_def
  annotated_pattern_def type_annotation_def jsx_element_def block_def return_stmt_def ident_def

text \<open>
  Claim C9, as the code has it. When the first parameter of the target component (a
  function declaration, or a variable bound to an arrow function) is an identifier that
  carries a type annotation, \<^verbatim>\<open>addTypeAnnotation\<close> returns no fix and \<open>success = false\<close>,
  for every strategy and program.
\<close>

theorem annotated_identifier_no_fix:
  assumes "first_param c = Some p" "is_node ''Identifier'' p"
    "getp p ''typeAnnotation'' = Some ta" "truthy ta"
  shows "addTypeAnnotation c strategy programNode = ([], False)"
  by (simp add: addTypeAnnotation_def addTypeAnnotation_body_def
      component_fixes_annotated [OF assms])

theorem annotated_identifier_no_fix_witness:
  "addTypeAnnotation
     (function_declaration ''Icon'' [annotated_ident ''props''] [return_stmt jsx_element])
     react_native_strategy (program []) = ([], False)
   \<and> addTypeAnnotation (arrow_declarator ''Icon'' [annotated_ident ''props''])
     react_native_strategy (program []) = ([], False)"
proof -
  have p: "is_node ''Identifier'' (annotated_ident ''props'')"
    "getp (annotated_ident ''props'') ''typeAnnotation'' = Some type_annotation"
    "truthy type_annotation"
    by (simp_all add: is_node_def annotated_ident_def type_annotation_def)
  have f: "first_param (function_declaration ''Icon'' [annotated_ident ''props'']
             [return_stmt jsx_element]) = Some (annotated_ident ''props'')"
    by (simp add: first_param_def is_node_def function_declaration_def)
  have a: "first_param (arrow_declarator ''Icon'' [annotated_ident ''props''])
             = Some (annotated_ident ''props'')"
    by (simp add: first_param_def is_node_def arrow_declarator_def)
  show ?thesis
    using annotated_identifier_no_fix [OF f p] annotated_identifier_no_fix [OF a p] by simp
qed

text \<open>
  The claim as stated covers every annotated first parameter. For
  \<^verbatim>\<open>function Icon({ size }: Props)\<close> the first parameter is an annotated object pattern;
  with the React Native strategy and no import of its module the result is an import
  edit and \<open>success = true\<close>.
\<close>

theorem annotated_pattern_counterexample:
  "first_param (function_declaration ''Icon'' [annotated_pattern] [return_stmt jsx_element])
     = Some annotated_pattern
   \<and> getp annotated_pattern ''typeAnnotation'' = Some type_annotation
   \<and> truthy type_annotation
   \<and> addTypeAnnotation
       (function_declaration ''Icon'' [annotated_pattern] [return_stmt jsx_element])
       react_native_strategy (program [])
     = ([((JNum 0, JNum 0),
          ''import { SvgProps, Svg } from '' @ quoted ''react-native-svg'' @ '';'' @ [CHR 0x0A])],
        True)"
  by (simp add: first_param_def is_node_def addTypeAnnotation_def addTypeAnnotation_body_def
      component_fixes_def annotate_first_param_def positive_def type_import_fixes_def
      program_start_def react_native_strategy_def program_def component_defs)

section \<open>Properties of the tree walker\<close>

lemma item_nodes_iff: "b \<in> set (item_nodes h v) \<longleftrightarrow> is_node_at h b \<and> v = HRef b"
  by (cases v) auto

lemma child_nodes_iff:
  "b \<in> set (child_nodes h v) \<longleftrightarrow>
     is_node_at h b \<and> (v = HRef b \<or> (\<exists>items. v = HArr items \<and> HRef b \<in> set items))"
  by (cases v) (auto simp: item_nodes_iff)

lemma children_edge:
  "a < length h \<Longrightarrow> b \<in> set (children h a) \<longleftrightarrow> (a, b) \<in> structural_edge h"
  unfolding children_def structural_edge_def
  by (auto simp: child_nodes_iff split: if_splits)

lemma edge_in_heap: "(a, b) \<in> structural_edge h \<Longrightarrow> a < length h \<and> b < length h"
  by (auto simp: structural_edge_def is_node_at_def)

lemma walk_visits: "walk h visitor pending visited s = run_visitor visitor (visits h pending visited) s"
proof (induction h pending visited arbitrary: s rule: visits.induct)
  case (1 h visited)
  show ?case by (simp add: visits.simps walk.simps)
next
  case (2 h currentNode pending visited)
  show ?case
  proof (cases "currentNode \<in> visited \<or> \<not> currentNode < length h")
    case True
    then show ?thesis using 2(1) by (simp add: visits.simps(2) walk.simps(2))
  next
    case False
    then show ?thesis using 2(2)
      by (simp add: visits.simps(2) walk.simps(2) split: outcome.splits)
  qed
qed

lemma run_returning: "run_visitor (returning f) ns s = Returned (fold f ns s)"
  by (induction ns arbitrary: s) (simp_all add: returning_def)

lemma visits_fresh:
  "distinct (visits h pending visited) \<and> set (visits h pending visited) \<inter> visited = {}"
proof (induction h pending visited rule: visits.induct)
  case (1 h visited)
  show ?case by (simp add: visits.simps)
next
  case (2 h currentNode pending visited)
  show ?case
  proof (cases "currentNode \<in> visited \<or> \<not> currentNode < length h")
    case True
    then show ?thesis using 2(1) by (simp add: visits.simps(2))
  next
    case False
    then show ?thesis using 2(2) by (auto simp: visits.simps(2))
  qed
qed

lemma visits_sound:
  "set (visits h pending visited) \<subseteq> (structural_edge h)\<^sup>* `` set pending"
proof (induction h pending visited rule: visits.induct)
  case (1 h visited)
  show ?case by (simp add: visits.simps)
next
  case (2 h currentNode pending visited)
  show ?case
  proof (cases "currentNode \<in> visited \<or> \<not> currentNode < length h")
    case True
    then show ?thesis using 2(1) by (auto simp: visits.simps(2))
  next
    case False
    then have v: "currentNode < length h" by simp
    have "set (children h currentNode) \<subseteq> (structural_edge h)\<^sup>* `` {currentNode}"
      using children_edge [OF v] by auto
    then have "(structural_edge h)\<^sup>* `` set (children h currentNode @ pending)
        \<subseteq> (structural_edge h)\<^sup>* `` set (currentNode # pending)"
      by (auto intro: rtrancl_trans)
    with 2(2) False show ?thesis by (auto simp: visits.simps(2))
  qed
qed

lemma visits_closed:
  assumes "\<forall>a \<in> visited. \<forall>b. (a, b) \<in> structural_edge h \<longrightarrow> b \<in> visited \<union> set pending"
  shows "\<forall>a \<in> visited \<union> set (visits h pending visited).
           \<forall>b. (a, b) \<in> structural_edge h \<longrightarrow> b \<in> visited \<union> set (visits h pending visited)"
  using assms
proof (induction h pending visited rule: visits.induct)
  case (1 h visited)
  then show ?case by (simp add: visits.simps)
next
  case (2 h currentNode pending visited)
  show ?case
  proof (cases "currentNode \<in> visited \<or> \<not> currentNode < length h")
    case True
    have "\<forall>a \<in> visited. \<forall>b. (a, b) \<in> structural_edge h \<longrightarrow> b \<in> visited \<union> set pending"
    proof (intro ballI allI impI)
      fix a b assume a: "a \<in> visited" and e: "(a, b) \<in> structural_edge h"
      with 2(3) have "b \<in> visited \<union> set (currentNode # pending)" by blast
      moreover from e have "b < length h" by (simp add: edge_in_heap)
      ultimately show "b \<in> visited \<union> set pending" using True by auto
    qed
    from 2(1) [OF True this] True show ?thesis by (simp add: visits.simps(2))
  next
    case False
    then have v: "currentNode < length h" by simp
    have "\<forall>a \<in> insert currentNode visited. \<forall>b. (a, b) \<in> structural_edge h \<longrightarrow>
            b \<in> insert currentNode visited \<union> set (children h currentNode @ pending)"
    proof (intro ballI allI impI)
      fix a b assume a: "a \<in> insert currentNode visited" and e: "(a, b) \<in> structural_edge h"
      show "b \<in> insert currentNode visited \<union> set (children h currentNode @ pending)"
      proof (cases "a = currentNode")
        case True
        with e children_edge [OF v] show ?thesis by auto
      next
        case False
        with a have "a \<in> visited" by simp
        with 2(3) e have "b \<in> visited \<union> set (currentNode # pending)" by blast
        then show ?thesis by auto
      qed
    qed
    from 2(2) [OF False this] False show ?thesis by (simp add: visits.simps(2))
  qed
qed

lemma visits_root:
  assumes "root < length h"
  shows "set (visits h [root] {}) = reachable h root"
proof
  show "set (visits h [root] {}) \<subseteq> reachable h root"
    using visits_sound [of h "[root]" "{}"] by (simp add: reachable_def)
next
  have closed: "\<forall>a \<in> set (visits h [root] {}). \<forall>b. (a, b) \<in> structural_edge h
      \<longrightarrow> b \<in> set (visits h [root] {})"
    using visits_closed [of "{}" h "[root]"] by simp
  have root: "root \<in> set (visits h [root] {})" using assms by (simp add: visits.simps(2))
  have "b \<in> set (visits h [root] {})" if "(root, b) \<in> (structural_edge h)\<^sup>*" for b
    using that by (induction rule: rtrancl_induct) (use root closed in auto)
  then show "reachable h root \<subseteq> set (visits h [root] {})"
    by (auto simp: reachable_def)
qed

lemma sample_length: "length sample_heap = 5"
  by (simp add: sample_heap_def)

lemma sample_heap_children:
  "children sample_heap 0 = [1, 1, 2]"
  "children sample_heap (Suc 0) = [0]"
  "children sample_heap 2 = [1]"
  by (simp_all add: children_def sample_heap_def is_node_at_def)

lemma sample_visits: "visits sample_heap [0] {} = [0, 1, 2]"
  by (simp add: visits.simps sample_heap_children sample_length)

lemma sample_reachable: "reachable sample_heap 0 = {0, 1, 2}"
proof -
  have "0 < length sample_heap" by (simp add: sample_length)
  from visits_root [OF this] show ?thesis by (auto simp: sample_visits)
qed

lemma fold_log_visit: "fold log_visit ns seen = seen @ ns"
  by (induction ns arbitrary: seen) (simp_all add: log_visit_def)

text \<open>
  Claim C2, as the code has it. For every root in the store there is a list of nodes
  without repetition, made of exactly the nodes reachable from the root along structural
  edges (never along \<open>parent\<close>), such that \<^verbatim>\<open>traverseNode\<close> calls a visitor that returns
  on each node of the list once, in order; a second call runs through the same list
  again, since each call starts from an empty visited set. For an arbitrary visitor the
  calls are those of the list up to the first call that throws: the exception leaves
  \<^verbatim>\<open>traverseNode\<close> and the remaining nodes are not visited. In the sample graph node 1 is
  reachable along three paths and lies on a cycle, node 3 is held only as a \<open>parent\<close>:
  the visits are 0, 1, 2.
\<close>

theorem walker_visits_once:
  assumes "root < length h"
  shows "\<exists>ns. distinct ns \<and> set ns = reachable h root
           \<and> (\<forall>f s. traverseNode h root (returning f) s = Returned (fold f ns s))
           \<and> (\<forall>f s s'. traverseNode h root (returning f) s = Returned s' \<longrightarrow>
                 traverseNode h root (returning f) s' = Returned (fold f (ns @ ns) s))
           \<and> (\<forall>visitor s. traverseNode h root visitor s = run_visitor visitor ns s)"
proof -
  let ?ns = "visits h [root] {}"
  have d: "distinct ?ns" using visits_fresh by blast
  have r: "set ?ns = reachable h root" by (rule visits_root [OF assms])
  have t: "traverseNode h root visitor s = run_visitor visitor ?ns s" for visitor s
    by (simp add: traverseNode_def walk_visits)
  have f: "traverseNode h root (returning f) s = Returned (fold f ?ns s)" for f s
    by (simp add: t run_returning)
  have u: "traverseNode h root (returning f) s = Returned s' \<longrightarrow>
      traverseNode h root (returning f) s' = Returned (fold f (?ns @ ?ns) s)" for f s s'
    by (auto simp: f)
  have "distinct ?ns \<and> set ?ns = reachable h root
           \<and> (\<forall>f s. traverseNode h root (returning f) s = Returned (fold f ?ns s))
           \<and> (\<forall>f s s'. traverseNode h root (returning f) s = Returned s' \<longrightarrow>
                 traverseNode h root (returning f) s' = Returned (fold f (?ns @ ?ns) s))
           \<and> (\<forall>visitor s. traverseNode h root visitor s = run_visitor visitor ?ns s)"
    using d r t f u by (intro conjI allI)
  then show ?thesis by (rule exI)
qed

theorem walker_visits_once_witness:
  "traverseNode sample_heap 0 (returning log_visit) [] = Returned [0, 1, 2]
   \<and> reachable sample_heap 0 = {0, 1, 2}
   \<and> traverseNode sample_heap 0 (returning log_visit) [0, 1, 2] = Returned [0, 1, 2, 0, 1, 2]"
proof -
  have h: "0 < length sample_heap" by (simp add: sample_length)
  have w: "traverseNode sample_heap 0 (returning log_visit) seen = Returned (seen @ [0, 1, 2])"
    for seen
    by (simp only: traverseNode_def walk_visits sample_visits run_returning fold_log_visit)
  have "\<exists>ns. distinct ns \<and> set ns = reachable sample_heap 0
           \<and> (\<forall>(f :: nat \<Rightarrow> nat list \<Rightarrow> nat list) s.
                 traverseNode sample_heap 0 (returning f) s = Returned (fold f ns s))
           \<and> (\<forall>(f :: nat \<Rightarrow> nat list \<Rightarrow> nat list) s s'.
                 traverseNode sample_heap 0 (returning f) s = Returned s' \<longrightarrow>
                 traverseNode sample_heap 0 (returning f) s' = Returned (fold f (ns @ ns) s))
           \<and> (\<forall>(visitor :: nat \<Rightarrow> nat list \<Rightarrow> nat list outcome) s.
                 traverseNode sample_heap 0 visitor s = run_visitor visitor ns s)"
    by (rule walker_visits_once [OF h])
  then show ?thesis
  proof (elim exE conjE)
    fix ns
    assume ns: "set ns = reachable sample_heap 0"
      and t: "\<forall>(f :: nat \<Rightarrow> nat list \<Rightarrow> nat list) s.
                 traverseNode sample_heap 0 (returning f) s = Returned (fold f ns s)"
    from t have "traverseNode sample_heap 0 (returning log_visit) [] = Returned (fold log_visit ns [])"
      by (rule allE) (erule allE)
    then have "ns = [0, 1, 2]" by (simp add: w fold_log_visit)
    with ns have "reachable sample_heap 0 = {0, 1, 2}" by auto
    then show ?thesis by (simp add: w)
  qed
qed

text \<open>
  The claim as stated holds for every visitor callback. A visitor that throws at node 1
  is called on nodes 0 and 1 only; node 2 is reachable and is never visited.
\<close>

theorem throwing_visitor_counterexample:
  "traverseNode sample_heap 0 throw_on_1 [] = Thrown [0, 1]
   \<and> 2 \<in> reachable sample_heap 0"
  by (simp add: traverseNode_def walk_visits sample_visits sample_reachable throw_on_1_def)

section \<open>Properties of the error boundaries\<close>

lemma getp_None_nullish: "getp v k = None \<longleftrightarrow> nullish v"
  by (cases v) (simp_all add: nullish_def)

























end
